theory Spec2Isabelle
  imports Main "HOL-Library.Word"
begin

section \<open>Data model\<close>

text \<open>
  The server of \<^verbatim>\<open>src/unnamed/part_000\<close> keeps two process-local maps and one JSON
  file. Timestamps are the milliseconds of \<^verbatim>\<open>Date.now()\<close>, modelled as \<open>int\<close>.
  The two environment settings are parsed with \<^verbatim>\<open>parseInt\<close>; they are taken here
  as integers. Request fields are strings or absent (\<open>None\<close>); the users file, when
  it can be parsed, holds an array of user objects.

  A JavaScript string is a \<open>string\<close> here, for instance the list of its UTF-8 bytes:
  the handlers only compare strings, test them for emptiness and lower-case them.
  \<^verbatim>\<open>String.prototype.toLowerCase\<close> belongs to the JavaScript runtime, not to the
  repository. It is a parameter \<open>toLowerCase\<close> of every definition that calls it, and
  every theorem holds for every such function, whatever letters it folds.

  Record fields keep the source's names; where two objects of the source share a
  field name (\<^verbatim>\<open>expiresAt\<close>, \<^verbatim>\<open>email\<close>) the token's and the user's
  fields carry a prefix.
\<close>

record config =
  OTP_EXPIRES_SECONDS :: int
  TOKEN_EXPIRES_SECONDS :: int

definition default_config :: config where
  "default_config = \<lparr>OTP_EXPIRES_SECONDS = 300, TOKEN_EXPIRES_SECONDS = 900\<rparr>"

text \<open>\<^verbatim>\<open>otpStore\<close>: email -> { otp, expiresAt, attempts }.\<close>

record otp_entry =
  otp :: string
  expiresAt :: int
  attempts :: nat

text \<open>\<^verbatim>\<open>tokenStore\<close>: token -> { email, expiresAt }.\<close>

record token_entry =
  tok_email :: string
  tok_expiresAt :: int

text \<open>An element of the array stored in \<^verbatim>\<open>users.json\<close>: { id, name, email, createdAt }.\<close>

record user =
  user_id :: string
  user_name :: string
  user_email :: string
  createdAt :: int

text \<open>
  The \<^verbatim>\<open>mailOptions\<close> handed to \<^verbatim>\<open>transporter.sendMail\<close>: the recipient, the code
  and the number of minutes that the text and the HTML body interpolate. Sender and
  subject are constants of the source and are left out.
\<close>

record mail =
  mail_to :: string
  mail_otp :: string
  mail_minutes :: int

text \<open>
  The state a handler can read and change: the two maps, the users file (\<open>None\<close> when
  the file does not exist, otherwise the array it holds) and the log of the calls of
  \<^verbatim>\<open>transporter.sendMail\<close>.
\<close>

record server =
  otpStore :: "string \<rightharpoonup> otp_entry"
  tokenStore :: "string \<rightharpoonup> token_entry"
  users_file :: "user list option"
  sendMail_calls :: "mail list"

text \<open>
  What one handler invocation takes from its environment: the results of its calls of
  \<^verbatim>\<open>Date.now()\<close> in the order of the call sites in the handler's text, the random
  draws (\<open>random_digit e i\<close> is the \<open>i\<close>-th value of
  \<^verbatim>\<open>Math.floor(Math.random() * 10)\<close>, \<open>random_byte e i\<close> the \<open>i\<close>-th byte of
  \<^verbatim>\<open>crypto.randomBytes\<close>), and whether each call that can throw does throw:
  \<^verbatim>\<open>sendMail\<close>, \<^verbatim>\<open>fs.readJson\<close>, the \<^verbatim>\<open>fs.writeJson\<close> of \<^verbatim>\<open>readUsers\<close>
  that creates a missing file, and the \<^verbatim>\<open>fs.writeJson\<close> of \<^verbatim>\<open>writeUsers\<close>.
  A write that throws is taken to leave the file as it was.
\<close>

record env =
  now1 :: int
  now2 :: int
  now3 :: int
  random_digit :: "nat \<Rightarrow> nat"
  random_byte :: "nat \<Rightarrow> 8 word"
  sendMail_fails :: bool
  readJson_fails :: bool
  createFile_fails :: bool
  writeJson_fails :: bool

text \<open>The JSON answers of the handlers, with the HTTP status.\<close>

datatype body =
    Fail string
  | OtpSent
  | Verified string
  | Registered user
  | ExistsResult bool
  | Profile user

datatype response = Response (status: nat) (body: body)

section \<open>Helpers\<close>

text \<open>
  \<^verbatim>\<open>Math.ceil(a / b)\<close> for integers \<open>a\<close> and a positive integer \<open>b\<close>. The source
  divides doubles; for differences of timestamps, far below \<open>2^53\<close>, the rounded
  quotient has the same ceiling as the exact one.
\<close>

definition Math_ceil_div :: "int \<Rightarrow> int \<Rightarrow> int" where
  "Math_ceil_div a b = - ((- a) div b)"

text \<open>
  \<^verbatim>\<open>generateOTP(len)\<close>: \<open>len\<close> times, append the decimal digit
  \<^verbatim>\<open>Math.floor(Math.random() * 10)\<close>. That value is one of 0 to 9; \<open>mod 10\<close>
  keeps the draw of the environment in this range.
\<close>

definition digit_char :: "nat \<Rightarrow> char" where
  "digit_char d = char_of (48 + d mod 10)"

definition generateOTP :: "nat \<Rightarrow> (nat \<Rightarrow> nat) \<Rightarrow> string" where
  "generateOTP len rnd = map (\<lambda>i. digit_char (rnd i)) [0..<len]"

text \<open>
  \<^verbatim>\<open>crypto.randomBytes(n).toString('hex')\<close>: two lower-case hexadecimal digits for
  each byte.
\<close>

definition hex_digit :: "nat \<Rightarrow> char" where
  "hex_digit n = ''0123456789abcdef'' ! n"

definition byte_hex :: "8 word \<Rightarrow> string" where
  "byte_hex b = [hex_digit (unat b div 16), hex_digit (unat b mod 16)]"

definition toString_hex :: "8 word list \<Rightarrow> string" where
  "toString_hex bs = concat (map byte_hex bs)"

definition randomBytes :: "nat \<Rightarrow> (nat \<Rightarrow> 8 word) \<Rightarrow> 8 word list" where
  "randomBytes n rnd = map rnd [0..<n]"

definition generateToken :: "(nat \<Rightarrow> 8 word) \<Rightarrow> string" where
  "generateToken rnd = toString_hex (randomBytes 20 rnd)"

definition is_hex :: "char \<Rightarrow> bool" where
  "is_hex c = (c \<in> set ''0123456789abcdef'')"

section \<open>The users file\<close>

text \<open>
  \<^verbatim>\<open>readUsers\<close>: a missing file is created holding the empty array and the empty
  array is returned; an exception anywhere is caught and the empty array is returned.
  The result is the array read and the file afterwards.
\<close>

definition readUsers :: "env \<Rightarrow> user list option \<Rightarrow> user list \<times> user list option" where
  "readUsers e f =
     (case f of
        None \<Rightarrow> if createFile_fails e then ([], None) else ([], Some [])
      | Some us \<Rightarrow> if readJson_fails e then ([], Some us) else (us, Some us))"

text \<open>\<^verbatim>\<open>writeUsers\<close>: true when the whole array was written, false when the write threw.\<close>

definition writeUsers :: "env \<Rightarrow> user list \<Rightarrow> user list option \<Rightarrow> bool \<times> user list option" where
  "writeUsers e users f = (if writeJson_fails e then (False, f) else (True, Some users))"

text \<open>The users a file holds: none when it does not exist.\<close>

definition directory :: "user list option \<Rightarrow> user list" where
  "directory f = (case f of None \<Rightarrow> [] | Some us \<Rightarrow> us)"

text \<open>
  The callback of \<^verbatim>\<open>users.find\<close> in the three handlers that read the file:
  \<^verbatim>\<open>u => u.email.toLowerCase() === email.toLowerCase()\<close>.
\<close>

definition same_email :: "(string \<Rightarrow> string) \<Rightarrow> string \<Rightarrow> user \<Rightarrow> bool" where
  "same_email toLowerCase email u = (toLowerCase (user_email u) = toLowerCase email)"

section \<open>The janitor\<close>

text \<open>The interval callback: both maps lose every entry with \<open>expiresAt \<le> now\<close>.\<close>

definition janitor :: "int \<Rightarrow> server \<Rightarrow> server" where
  "janitor now s =
     s\<lparr>otpStore := (\<lambda>k. case otpStore s k of
                        None \<Rightarrow> None
                      | Some obj \<Rightarrow> if expiresAt obj \<le> now then None else Some obj),
       tokenStore := (\<lambda>k. case tokenStore s k of
                        None \<Rightarrow> None
                      | Some obj \<Rightarrow> if tok_expiresAt obj \<le> now then None else Some obj)\<rparr>"

section \<open>The handlers\<close>

text \<open>
  \<^verbatim>\<open>POST /send-otp\<close>. \<open>now1\<close> is read in the test \<^verbatim>\<open>existing.expiresAt > Date.now()\<close>,
  \<open>now2\<close> in \<^verbatim>\<open>secsLeft\<close>, \<open>now3\<close> for the new expiry. The challenge is stored before
  the mail is handed to the transporter, and stays stored when sending fails.
\<close>

definition post_send_otp :: "config \<Rightarrow> env \<Rightarrow> string option \<Rightarrow> server \<Rightarrow> response \<times> server" where
  "post_send_otp cfg e email_field s =
     (case email_field of
        None \<Rightarrow> (Response 400 (Fail ''Email required''), s)
      | Some email \<Rightarrow>
          if email = [] then (Response 400 (Fail ''Email required''), s)
          else if (case otpStore s email of
                     None \<Rightarrow> False
                   | Some existing \<Rightarrow>
                       expiresAt existing > now1 e \<and>
                       Math_ceil_div (expiresAt existing - now2 e) 1000
                         > OTP_EXPIRES_SECONDS cfg - 250)
          then (Response 429 (Fail ''Try again later''), s)
          else
            let code = generateOTP 6 (random_digit e);
                entry = \<lparr>otp = code,
                         expiresAt = now3 e + OTP_EXPIRES_SECONDS cfg * 1000,
                         attempts = 0\<rparr>;
                m = \<lparr>mail_to = email, mail_otp = code,
                     mail_minutes = Math_ceil_div (OTP_EXPIRES_SECONDS cfg) 60\<rparr>;
                s' = s\<lparr>otpStore := (otpStore s)(email \<mapsto> entry),
                       sendMail_calls := sendMail_calls s @ [m]\<rparr>
            in if sendMail_fails e
               then (Response 500 (Fail ''Failed to send email''), s')
               else (Response 200 OtpSent, s'))"

text \<open>
  \<^verbatim>\<open>POST /verify-otp\<close>. \<open>now1\<close> is read in the expiry test, \<open>now2\<close> for the expiry
  of the token. \<^verbatim>\<open>data.attempts = (data.attempts || 0) + 1\<close> changes the object held
  by the map, so the count is stored before the code is compared.
\<close>

definition post_verify_otp ::
  "config \<Rightarrow> env \<Rightarrow> string option \<Rightarrow> string option \<Rightarrow> server \<Rightarrow> response \<times> server" where
  "post_verify_otp cfg e email_field otp_field s =
     (case (email_field, otp_field) of
        (Some email, Some code) \<Rightarrow>
          if email = [] \<or> code = [] then (Response 400 (Fail ''Email and OTP required''), s)
          else
            (case otpStore s email of
               None \<Rightarrow> (Response 400 (Fail ''No OTP requested or already used''), s)
             | Some data \<Rightarrow>
                 if now1 e > expiresAt data
                 then (Response 400 (Fail ''OTP expired''),
                       s\<lparr>otpStore := (otpStore s)(email := None)\<rparr>)
                 else
                   let data' = data\<lparr>attempts := attempts data + 1\<rparr> in
                   if attempts data' > 6
                   then (Response 429 (Fail ''Too many attempts''),
                         s\<lparr>otpStore := (otpStore s)(email := None)\<rparr>)
                   else if code \<noteq> otp data'
                   then (Response 400 (Fail ''Invalid OTP''),
                         s\<lparr>otpStore := (otpStore s)(email \<mapsto> data')\<rparr>)
                   else
                     let token = generateToken (random_byte e);
                         mapping = \<lparr>tok_email = email,
                                    tok_expiresAt = now2 e + TOKEN_EXPIRES_SECONDS cfg * 1000\<rparr>
                     in (Response 200 (Verified token),
                         s\<lparr>tokenStore := (tokenStore s)(token \<mapsto> mapping),
                           otpStore := (otpStore s)(email := None)\<rparr>))
      | _ \<Rightarrow> (Response 400 (Fail ''Email and OTP required''), s))"

text \<open>
  \<^verbatim>\<open>POST /register\<close>. \<open>now1\<close> is the \<^verbatim>\<open>createdAt\<close> of the new user. The token is
  looked up and its email compared with \<^verbatim>\<open>!==\<close>; the handler reads no clock before
  that, and the token's \<^verbatim>\<open>expiresAt\<close> is not read at all.
\<close>

definition post_register ::
  "(string \<Rightarrow> string) \<Rightarrow> env \<Rightarrow> string option \<Rightarrow> string option \<Rightarrow> string option \<Rightarrow> server \<Rightarrow> response \<times> server" where
  "post_register toLowerCase e name_field email_field token_field s =
     (case (name_field, email_field, token_field) of
        (Some name, Some email, Some token) \<Rightarrow>
          if name = [] \<or> email = [] \<or> token = []
          then (Response 400 (Fail ''Name, email and token required''), s)
          else
            (case tokenStore s token of
               None \<Rightarrow> (Response 400 (Fail ''Invalid or expired token''), s)
             | Some mapping \<Rightarrow>
                 if tok_email mapping \<noteq> email
                 then (Response 400 (Fail ''Invalid or expired token''), s)
                 else
                   let (users, f1) = readUsers e (users_file s) in
                   (case find (same_email toLowerCase email) users of
                      Some found \<Rightarrow>
                        (Response 400 (Fail ''User already exists''), s\<lparr>users_file := f1\<rparr>)
                    | None \<Rightarrow>
                        let u = \<lparr>user_id = toString_hex (randomBytes 8 (random_byte e)),
                                 user_name = name, user_email = email,
                                 createdAt = now1 e\<rparr>;
                            (ok, f2) = writeUsers e (users @ [u]) f1
                        in if \<not> ok
                           then (Response 500 (Fail ''Failed to save user''),
                                 s\<lparr>users_file := f2\<rparr>)
                           else (Response 200 (Registered u),
                                 s\<lparr>users_file := f2,
                                   tokenStore := (tokenStore s)(token := None)\<rparr>)))
      | _ \<Rightarrow> (Response 400 (Fail ''Name, email and token required''), s))"

text \<open>\<^verbatim>\<open>POST /exists\<close>.\<close>

definition post_exists :: "(string \<Rightarrow> string) \<Rightarrow> env \<Rightarrow> string option \<Rightarrow> server \<Rightarrow> response \<times> server" where
  "post_exists toLowerCase e email_field s =
     (case email_field of
        None \<Rightarrow> (Response 400 (Fail ''Email required''), s)
      | Some email \<Rightarrow>
          if email = [] then (Response 400 (Fail ''Email required''), s)
          else
            let (users, f1) = readUsers e (users_file s) in
            (Response 200 (ExistsResult (find (same_email toLowerCase email) users \<noteq> None)),
             s\<lparr>users_file := f1\<rparr>))"

text \<open>
  \<^verbatim>\<open>GET /me\<close>. The token is \<^verbatim>\<open>req.headers['x-auth-token'] || req.query.token\<close>: the
  header when it is a non-empty string, otherwise the query parameter. The handler
  reads no clock.
\<close>

definition request_token :: "string option \<Rightarrow> string option \<Rightarrow> string option" where
  "request_token header query =
     (case header of
        None \<Rightarrow> query
      | Some h \<Rightarrow> if h = [] then query else Some h)"

definition get_me ::
  "(string \<Rightarrow> string) \<Rightarrow> env \<Rightarrow> string option \<Rightarrow> string option \<Rightarrow> server \<Rightarrow> response \<times> server" where
  "get_me toLowerCase e header query s =
     (case request_token header query of
        None \<Rightarrow> (Response 401 (Fail ''Token required''), s)
      | Some token \<Rightarrow>
          if token = [] then (Response 401 (Fail ''Token required''), s)
          else
            (case tokenStore s token of
               None \<Rightarrow> (Response 401 (Fail ''Invalid or expired token''), s)
             | Some mapping \<Rightarrow>
                 let (users, f1) = readUsers e (users_file s) in
                 (case find (same_email toLowerCase (tok_email mapping)) users of
                    None \<Rightarrow> (Response 404 (Fail ''User not found''), s\<lparr>users_file := f1\<rparr>)
                  | Some u \<Rightarrow> (Response 200 (Profile u), s\<lparr>users_file := f1\<rparr>))))"

section \<open>Runs of the server\<close>

text \<open>
  The router and the timer: an event is a request with the environment of its handler,
  or one run of the janitor at a given time. A run handles the events one after the
  other and collects the responses: each handler runs to its end before the next event,
  so two handlers that are suspended at an \<^verbatim>\<open>await\<close> at the same time are not
  part of this model.
\<close>

datatype request =
    SendOtp "string option"
  | VerifyOtp "string option" "string option"
  | Register "string option" "string option" "string option"
  | Exists "string option"
  | Me "string option" "string option"

datatype event = Http env request | Sweep int

fun handle ::
  "(string \<Rightarrow> string) \<Rightarrow> config \<Rightarrow> env \<Rightarrow> request \<Rightarrow> server \<Rightarrow> response \<times> server" where
  "handle toLowerCase cfg e (SendOtp email) s = post_send_otp cfg e email s"
| "handle toLowerCase cfg e (VerifyOtp email code) s = post_verify_otp cfg e email code s"
| "handle toLowerCase cfg e (Register name email token) s
     = post_register toLowerCase e name email token s"
| "handle toLowerCase cfg e (Exists email) s = post_exists toLowerCase e email s"
| "handle toLowerCase cfg e (Me header query) s = get_me toLowerCase e header query s"

fun step ::
  "(string \<Rightarrow> string) \<Rightarrow> config \<Rightarrow> event \<Rightarrow> server \<Rightarrow> response list \<times> server" where
  "step toLowerCase cfg (Http e rq) s =
     (let (r, s') = handle toLowerCase cfg e rq s in ([r], s'))"
| "step toLowerCase cfg (Sweep now) s = ([], janitor now s)"

fun run ::
  "(string \<Rightarrow> string) \<Rightarrow> config \<Rightarrow> event list \<Rightarrow> server \<Rightarrow> response list \<times> server" where
  "run toLowerCase cfg [] s = ([], s)"
| "run toLowerCase cfg (ev # evs) s =
     (let (rs1, s1) = step toLowerCase cfg ev s;
          (rs2, s2) = run toLowerCase cfg evs s1
      in (rs1 @ rs2, s2))"

section \<open>Notions used by the properties\<close>

text \<open>No two users of a list have the same email when compared in lower case.\<close>

definition unique_emails :: "(string \<Rightarrow> string) \<Rightarrow> user list \<Rightarrow> bool" where
  "unique_emails toLowerCase us = distinct (map (\<lambda>u. toLowerCase (user_email u)) us)"

text \<open>An event mints the token \<open>t\<close>: it is a \<^verbatim>\<open>/verify-otp\<close> whose random bytes spell \<open>t\<close>.\<close>

fun mints :: "string \<Rightarrow> event \<Rightarrow> bool" where
  "mints t (Http e (VerifyOtp email code)) = (generateToken (random_byte e) = t)"
| "mints t ev = False"

text \<open>A \<^verbatim>\<open>/verify-otp\<close> request for an email, from an environment and a submitted code.\<close>

definition verify_event :: "string \<Rightarrow> env \<times> string \<Rightarrow> event" where
  "verify_event email try = Http (fst try) (VerifyOtp (Some email) (Some (snd try)))"

section \<open>Example inputs\<close>

text \<open>
  A concrete environment and the states of one run of the server, used to evaluate the
  theorems below. At every time the example environment draws the digits 1 to 6 and
  bytes \<open>0xab\<close>, and no call throws.
\<close>

text \<open>
  The examples need one concrete lower-casing function. On a string of ASCII characters
  \<^verbatim>\<open>String.prototype.toLowerCase\<close> maps the letters A to Z to a to z and keeps every
  other character; the emails of the examples are such strings.
\<close>

definition ascii_lower_char :: "char \<Rightarrow> char" where
  "ascii_lower_char c =
     (let n = (of_char c :: nat) in if 65 \<le> n \<and> n \<le> 90 then char_of (n + 32) else c)"

definition ascii_toLowerCase :: "string \<Rightarrow> string" where
  "ascii_toLowerCase s = map ascii_lower_char s"

definition env0 :: env where
  "env0 = \<lparr>now1 = 0, now2 = 0, now3 = 0,
            random_digit = (\<lambda>i. i + 1), random_byte = (\<lambda>i. 171),
            sendMail_fails = False, readJson_fails = False,
            createFile_fails = False, writeJson_fails = False\<rparr>"

definition env_at :: "int \<Rightarrow> env" where
  "env_at t = env0\<lparr>now1 := t, now2 := t, now3 := t\<rparr>"

definition token0 :: string where
  "token0 = ''abababababababababababababababababababab''"

definition alice :: user where
  "alice = \<lparr>user_id = ''abababababababab'', user_name = ''Alice'', user_email = ''a@x.com'',
             createdAt = 2000\<rparr>"

definition mail1 :: mail where
  "mail1 = \<lparr>mail_to = ''a@x.com'', mail_otp = ''123456'', mail_minutes = 5\<rparr>"

definition mail2 :: mail where
  "mail2 = \<lparr>mail_to = ''A@X.COM'', mail_otp = ''123456'', mail_minutes = 5\<rparr>"

text \<open>The server after start: empty maps, no users file.\<close>

definition server0 :: server where
  "server0 = \<lparr>otpStore = Map.empty, tokenStore = Map.empty, users_file = None,
               sendMail_calls = []\<rparr>"

text \<open>After a code was sent to \<open>a@x.com\<close> at time 0.\<close>

definition server1 :: server where
  "server1 = \<lparr>otpStore = [''a@x.com'' \<mapsto> \<lparr>otp = ''123456'', expiresAt = 300000, attempts = 0\<rparr>],
               tokenStore = Map.empty, users_file = None, sendMail_calls = [mail1]\<rparr>"

text \<open>After that code was verified at time 1000.\<close>

definition server2 :: server where
  "server2 = \<lparr>otpStore = Map.empty,
               tokenStore = [token0 \<mapsto> \<lparr>tok_email = ''a@x.com'', tok_expiresAt = 901000\<rparr>],
               users_file = None, sendMail_calls = [mail1]\<rparr>"

text \<open>After Alice registered with that token at time 2000.\<close>

definition server3 :: server where
  "server3 = \<lparr>otpStore = Map.empty, tokenStore = Map.empty,
               users_file = Some [alice], sendMail_calls = [mail1]\<rparr>"

text \<open>After a second code, for \<open>A@X.COM\<close>, was sent at time 400000 and verified at 401000.\<close>

definition server4 :: server where
  "server4 = \<lparr>otpStore = Map.empty,
               tokenStore = [token0 \<mapsto> \<lparr>tok_email = ''A@X.COM'', tok_expiresAt = 1301000\<rparr>],
               users_file = Some [alice], sendMail_calls = [mail1, mail2]\<rparr>"

definition events1 :: "event list" where
  "events1 = [Http (env_at 0) (SendOtp (Some ''a@x.com''))]"

definition events2 :: "event list" where
  "events2 = events1 @ [Http (env_at 1000) (VerifyOtp (Some ''a@x.com'') (Some ''123456'')),
                        Sweep 900000]"

definition events3 :: "event list" where
  "events3 = events1 @ [Http (env_at 1000) (VerifyOtp (Some ''a@x.com'') (Some ''123456'')),
                        Http (env_at 2000)
                          (Register (Some ''Alice'') (Some ''a@x.com'') (Some token0))]"

definition events4 :: "event list" where
  "events4 = events3 @ [Http (env_at 400000) (SendOtp (Some ''A@X.COM'')),
                        Http (env_at 401000) (VerifyOtp (Some ''A@X.COM'') (Some ''123456'')),
                        Sweep 1300000]"

text \<open>
  The state \<open>server2\<close> after a code was sent to \<open>b@x.com\<close> at time 400000, and an
  environment at time 500000 whose random bytes are all zero.
\<close>

definition mail_b :: mail where
  "mail_b = \<lparr>mail_to = ''b@x.com'', mail_otp = ''123456'', mail_minutes = 5\<rparr>"

definition server_b :: server where
  "server_b = \<lparr>otpStore = [''b@x.com'' \<mapsto> \<lparr>otp = ''123456'', expiresAt = 700000, attempts = 0\<rparr>],
                tokenStore = [token0 \<mapsto> \<lparr>tok_email = ''a@x.com'', tok_expiresAt = 901000\<rparr>],
                users_file = None, sendMail_calls = [mail1, mail_b]\<rparr>"

definition events_b :: "event list" where
  "events_b = events2 @ [Http (env_at 400000) (SendOtp (Some ''b@x.com''))]"

definition env_zero :: env where
  "env_zero = (env_at 500000)\<lparr>random_byte := (\<lambda>i. 0)\<rparr>"

definition token_zero :: string where
  "token_zero = ''0000000000000000000000000000000000000000''"

text \<open>The state \<open>server1\<close> after six wrong codes.\<close>

definition server1_six :: server where
  "server1_six = server1\<lparr>otpStore := [''a@x.com'' \<mapsto>
                   \<lparr>otp = ''123456'', expiresAt = 300000, attempts = 6\<rparr>]\<rparr>"

text \<open>Seven submissions of a wrong code, one second apart.\<close>

definition tries7 :: "(env \<times> string) list" where
  "tries7 = map (\<lambda>t. (env_at t, ''000000'')) [1000, 2000, 3000, 4000, 5000, 6000, 7000]"

definition events_after :: "event list" where
  "events_after = [Http (env_at 400000) (SendOtp (Some ''A@X.COM'')), Sweep 420000]"

definition bob :: user where
  "bob = \<lparr>user_id = ''abababababababab'', user_name = ''Bob'', user_email = ''A@X.COM'',
           createdAt = 402000\<rparr>"

text \<open>Environments in which reading, respectively writing, the users file throws.\<close>

definition env_unreadable :: env where
  "env_unreadable = (env_at 402000)\<lparr>readJson_fails := True\<rparr>"

definition env_unwritable :: env where
  "env_unwritable = (env_at 2000)\<lparr>writeJson_fails := True\<rparr>"

section \<open>Basic facts\<close>

lemma ceil_gt: "Math_ceil_div a 1000 > n \<longleftrightarrow> a > n * 1000"
  unfolding Math_ceil_div_def by linarith

lemma len_hex: "length (toString_hex bs) = 2 * length bs"
  by (induction bs) (simp_all add: toString_hex_def byte_hex_def)

lemma hex_digit_ok: "n < 16 \<Longrightarrow> is_hex (hex_digit n)"
  unfolding is_hex_def hex_digit_def by (rule nth_mem) simp

lemma byte_hex_ok: "list_all is_hex (byte_hex b)"
proof -
  have "unat b < 2 ^ 8"
    using unsigned_less [of b] by simp
  then have "unat b div 16 < 16" "unat b mod 16 < 16"
    by simp_all
  then show ?thesis
    by (simp add: byte_hex_def hex_digit_ok)
qed

lemma hex_all: "list_all is_hex (toString_hex bs)"
  by (induction bs) (simp_all add: toString_hex_def byte_hex_ok)

text \<open>
  The hexadecimal string determines the bytes: two tokens are equal exactly when the 20
  bytes drawn for them are.
\<close>

lemma hex_digit_inj:
  assumes "n < 16" "m < 16" "hex_digit n = hex_digit m"
  shows "n = m"
proof -
  have "distinct ''0123456789abcdef''" by simp
  moreover have "n < length ''0123456789abcdef''" "m < length ''0123456789abcdef''"
    using assms by simp_all
  ultimately show ?thesis
    using assms(3) unfolding hex_digit_def by (simp only: nth_eq_iff_index_eq)
qed

lemma byte_hex_inj:
  assumes "byte_hex b = byte_hex c"
  shows "b = c"
proof -
  have lt: "unat b < 2 ^ 8" "unat c < 2 ^ 8"
    using unsigned_less [of b] unsigned_less [of c] by simp_all
  then have d: "unat b div 16 < 16" "unat b mod 16 < 16" "unat c div 16 < 16" "unat c mod 16 < 16"
    by simp_all
  from assms have "hex_digit (unat b div 16) = hex_digit (unat c div 16)"
    and "hex_digit (unat b mod 16) = hex_digit (unat c mod 16)"
    by (simp_all add: byte_hex_def)
  then have "unat b div 16 = unat c div 16" "unat b mod 16 = unat c mod 16"
    using d by (auto intro: hex_digit_inj)
  then have "unat b = unat c"
    by (metis div_mult_mod_eq)
  then show ?thesis
    by (simp add: word_unat_eq_iff)
qed

lemma toString_hex_inj: "toString_hex bs = toString_hex cs \<Longrightarrow> bs = cs"
proof (induction bs arbitrary: cs)
  case Nil
  then show ?case
    by (cases cs) (simp_all add: toString_hex_def byte_hex_def)
next
  case (Cons b bs)
  then obtain c cs' where cs: "cs = c # cs'"
    by (cases cs) (simp_all add: toString_hex_def byte_hex_def)
  from Cons.prems cs have "byte_hex b @ toString_hex bs = byte_hex c @ toString_hex cs'"
    by (simp add: toString_hex_def)
  moreover have "length (byte_hex b) = length (byte_hex c)"
    by (simp add: byte_hex_def)
  ultimately have "byte_hex b = byte_hex c" "toString_hex bs = toString_hex cs'"
    by simp_all
  then show ?case
    using cs Cons.IH byte_hex_inj by blast
qed

lemma randomBytes_eq_iff: "randomBytes n r = randomBytes n r' \<longleftrightarrow> (\<forall>i<n. r i = r' i)"
  by (auto simp: randomBytes_def)

lemma generateToken_eq_iff:
  "generateToken r = generateToken r' \<longleftrightarrow> (\<forall>i<20. r i = r' i)"
proof
  assume "generateToken r = generateToken r'"
  then have "randomBytes 20 r = randomBytes 20 r'"
    unfolding generateToken_def by (rule toString_hex_inj)
  then show "\<forall>i<20. r i = r' i"
    by (simp only: randomBytes_eq_iff)
next
  assume "\<forall>i<20. r i = r' i"
  then have "randomBytes 20 r = randomBytes 20 r'"
    by (simp only: randomBytes_eq_iff)
  then show "generateToken r = generateToken r'"
    by (simp add: generateToken_def)
qed

lemma run_append:
  "run toLowerCase cfg (xs @ ys) s =
     (let (rs1, s1) = run toLowerCase cfg xs s; (rs2, s2) = run toLowerCase cfg ys s1 in (rs1 @ rs2, s2))"
  by (induction xs arbitrary: s) (simp_all add: Let_def split: prod.splits)

lemma server_eqI:
  fixes a b :: server
  assumes "otpStore a = otpStore b" "tokenStore a = tokenStore b"
    "users_file a = users_file b" "sendMail_calls a = sendMail_calls b"
  shows "a = b"
  using assms by (intro server.equality) simp_all

lemma snd_run_Cons: "snd (run toLowerCase cfg (ev # evs) s) = snd (run toLowerCase cfg evs (snd (step toLowerCase cfg ev s)))"
  by (simp add: case_prod_beta)

lemma snd_step_Http: "snd (step toLowerCase cfg (Http e rq) s) = snd (handle toLowerCase cfg e rq s)"
  by (simp add: case_prod_beta)

lemma readUsers_directory: "directory (snd (readUsers e f)) = directory f"
  by (simp add: readUsers_def directory_def split: option.splits)

text \<open>A request for a code that is not turned away with 429 leaves a fresh challenge.\<close>

lemma send_otp_stores:
  assumes "email \<noteq> []" "post_send_otp cfg e (Some email) s = (r, s')" "status r \<noteq> 429"
  shows "otpStore s' email
         = Some \<lparr>otp = generateOTP 6 (random_digit e),
                 expiresAt = now3 e + OTP_EXPIRES_SECONDS cfg * 1000, attempts = 0\<rparr>"
  using assms by (auto simp: post_send_otp_def Let_def split: if_splits option.splits)

subsection \<open>The example run\<close>

lemma env_at_simps:
  "now1 (env_at t) = t" "now2 (env_at t) = t" "now3 (env_at t) = t"
  "random_digit (env_at t) = random_digit env0" "random_byte (env_at t) = random_byte env0"
  "sendMail_fails (env_at t) = False" "readJson_fails (env_at t) = False"
  "createFile_fails (env_at t) = False" "writeJson_fails (env_at t) = False"
  by (simp_all add: env_at_def env0_def)

lemma default_config_simps:
  "OTP_EXPIRES_SECONDS default_config = 300" "TOKEN_EXPIRES_SECONDS default_config = 900"
  by (simp_all add: default_config_def)

lemma otp_env0: "generateOTP 6 (random_digit env0) = ''123456''"
  by code_simp

lemma token_env0: "generateToken (random_byte env0) = token0"
  unfolding token0_def by code_simp

lemma id_env0: "toString_hex (randomBytes 8 (random_byte env0)) = ''abababababababab''"
  by code_simp

lemma token0_nonempty: "token0 \<noteq> []"
  by (simp add: token0_def)

lemma ascii_toLowerCase_examples:
  "ascii_toLowerCase ''A@X.COM'' = ''a@x.com''" "ascii_toLowerCase ''a@x.com'' = ''a@x.com''"
  "ascii_toLowerCase ''b@x.com'' = ''b@x.com''"
  by code_simp+

lemma ceil_300: "Math_ceil_div 300 60 = 5"
  by (simp add: Math_ceil_div_def)

lemma server1_otp:
  "otpStore server1 ''a@x.com'' = Some \<lparr>otp = ''123456'', expiresAt = 300000, attempts = 0\<rparr>"
  by (simp add: server1_def)

lemma server2_token:
  "tokenStore server2 token0 = Some \<lparr>tok_email = ''a@x.com'', tok_expiresAt = 901000\<rparr>"
  by (simp add: server2_def)

lemma send1:
  "post_send_otp default_config (env_at 0) (Some ''a@x.com'') server0
   = (Response 200 OtpSent, server1)"
  by (simp add: post_send_otp_def server0_def server1_def env_at_simps
      default_config_simps otp_env0 ceil_300 mail1_def Let_def)

text \<open>The example states are states of runs that start from the empty server.\<close>

lemma reach1: "run ascii_toLowerCase default_config events1 server0 = ([Response 200 OtpSent], server1)"
  by (simp add: events1_def send1)

lemma reach2:
  "run ascii_toLowerCase default_config events2 server0
   = ([Response 200 OtpSent, Response 200 (Verified token0)], server2)"
  by (simp add: events2_def run_append reach1 post_verify_otp_def server1_def server2_def
      env_at_simps default_config_simps token_env0 janitor_def fun_eq_iff Let_def)

lemma reach3:
  "run ascii_toLowerCase default_config events3 server0
   = ([Response 200 OtpSent, Response 200 (Verified token0), Response 200 (Registered alice)],
      server3)"
  by (simp add: events3_def run_append reach1 post_verify_otp_def post_register_def
      server1_def server3_def env_at_simps default_config_simps token_env0
      readUsers_def writeUsers_def id_env0 alice_def token0_nonempty Let_def)

lemma reach4:
  "run ascii_toLowerCase default_config events4 server0
   = ([Response 200 OtpSent, Response 200 (Verified token0), Response 200 (Registered alice),
       Response 200 OtpSent, Response 200 (Verified token0)],
      server4)"
  by (simp add: events4_def run_append reach3 post_send_otp_def post_verify_otp_def
      server3_def server4_def env_at_simps default_config_simps otp_env0 token_env0 ceil_300
      mail2_def janitor_def fun_eq_iff Let_def)

lemma reach_b:
  "run ascii_toLowerCase default_config events_b server0
   = ([Response 200 OtpSent, Response 200 (Verified token0), Response 200 OtpSent], server_b)"
  by (simp add: events_b_def run_append reach2 post_send_otp_def server2_def server_b_def
      env_at_simps default_config_simps otp_env0 ceil_300 mail_b_def Let_def)

lemma env_zero_simps:
  "now1 env_zero = 500000" "now2 env_zero = 500000" "random_byte env_zero = (\<lambda>i. 0)"
  by (simp_all add: env_zero_def env_at_simps)

lemma token_env_zero: "generateToken (random_byte env_zero) = token_zero"
  unfolding env_zero_simps token_zero_def by code_simp

lemma server_b_otp:
  "otpStore server_b ''b@x.com'' = Some \<lparr>otp = ''123456'', expiresAt = 700000, attempts = 0\<rparr>"
  by (simp add: server_b_def)

lemma server_b_tokens:
  "tokenStore server_b token0 = Some \<lparr>tok_email = ''a@x.com'', tok_expiresAt = 901000\<rparr>"
  "tokenStore server_b token_zero = None"
  by (simp_all add: server_b_def token0_def token_zero_def)

lemma server_b_other_draws:
  "\<forall>k. tokenStore server_b k \<noteq> None \<longrightarrow>
     (\<exists>r'. k = generateToken r' \<and> (\<exists>i<20. r' i \<noteq> random_byte env_zero i))"
proof (intro allI impI)
  fix k
  assume "tokenStore server_b k \<noteq> None"
  then have "k = token0"
    by (simp add: server_b_def split: if_splits)
  then have "k = generateToken (random_byte env0)"
    by (simp add: token_env0)
  moreover have "random_byte env0 0 \<noteq> random_byte env_zero 0"
    by (simp add: env0_def env_zero_simps)
  ultimately show "\<exists>r'. k = generateToken r' \<and> (\<exists>i<20. r' i \<noteq> random_byte env_zero i)"
    by (intro exI [of _ "random_byte env0"] conjI exI [of _ 0]) simp_all
qed

lemma env_unreadable_simps:
  "now1 env_unreadable = 402000" "random_byte env_unreadable = random_byte env0"
  "readJson_fails env_unreadable" "\<not> createFile_fails env_unreadable"
  "\<not> writeJson_fails env_unreadable"
  by (simp_all add: env_unreadable_def env_at_simps)

lemma env_unwritable_simps:
  "now1 env_unwritable = 2000" "random_byte env_unwritable = random_byte env0"
  "\<not> readJson_fails env_unwritable" "\<not> createFile_fails env_unwritable"
  "writeJson_fails env_unwritable"
  by (simp_all add: env_unwritable_def env_at_simps)

lemma server4_token:
  "tokenStore server4 token0 = Some \<lparr>tok_email = ''A@X.COM'', tok_expiresAt = 1301000\<rparr>"
  by (simp add: server4_def)

lemma same_email_alice: "same_email ascii_toLowerCase ''A@X.COM'' alice"
  by (simp add: same_email_def alice_def ascii_toLowerCase_examples)

lemma register2:
  "post_register ascii_toLowerCase (env_at 2000) (Some ''Alice'') (Some ''a@x.com'') (Some token0) server2
   = (Response 200 (Registered alice), server3)"
  by (simp add: post_register_def server2_def server3_def env_at_simps
      readUsers_def writeUsers_def id_env0 alice_def token0_nonempty Let_def)

lemma register_late:
  "post_register ascii_toLowerCase (env_at 930000) (Some ''Alice'') (Some ''a@x.com'') (Some token0) server2
   = (Response 200 (Registered (alice\<lparr>createdAt := 930000\<rparr>)),
      server2\<lparr>users_file := Some [alice\<lparr>createdAt := 930000\<rparr>],
              tokenStore := (tokenStore server2)(token0 := None)\<rparr>)"
  by (simp add: post_register_def server2_def env_at_simps readUsers_def writeUsers_def
      id_env0 alice_def token0_nonempty Let_def)

lemma server1_six_otp:
  "otpStore server1_six ''a@x.com'' = Some \<lparr>otp = ''123456'', expiresAt = 300000, attempts = 6\<rparr>"
  by (simp add: server1_six_def)

lemma tries7_wrong:
  "\<forall>t\<in>set tries7. snd t \<noteq> [] \<and> snd t \<noteq> ''123456'' \<and> \<not> now1 (fst t) > 300000"
  by (simp add: tries7_def env_at_simps)

lemma alice_in_server4: "alice \<in> set (directory (users_file server4))"
  by (simp add: server4_def directory_def)

lemma unique_server0: "unique_emails ascii_toLowerCase (directory (users_file server0))"
  by (simp add: server0_def directory_def unique_emails_def)

section \<open>The token check of /register\<close>

text \<open>
  C1, as the code has it. For a \<^verbatim>\<open>/register\<close> request with name, email and token
  present: when the token is in the token store and its stored email equals the
  request's email (compared exactly, with case), the handler goes on past the token
  check, and its answer is the duplicate-user error, the 500 of a failed write, or 200;
  when the token is absent or its stored email differs, the handler answers
  400 "Invalid or expired token" and changes nothing, neither the users file nor the
  token store. The stored expiry plays no part: replacing it by any other value leaves
  the response as it is. Tokens past their expiry leave the store only through the
  janitor.
\<close>

theorem register_token_gate:
  assumes "name \<noteq> []" "email \<noteq> []" "token \<noteq> []"
  shows "(map_option tok_email (tokenStore s token) = Some email
          \<longrightarrow> fst (post_register toLowerCase e (Some name) (Some email) (Some token) s)
              \<noteq> Response 400 (Fail ''Invalid or expired token'')
            \<and> (fst (post_register toLowerCase e (Some name) (Some email) (Some token) s)
                  = Response 400 (Fail ''User already exists'')
               \<or> fst (post_register toLowerCase e (Some name) (Some email) (Some token) s)
                  = Response 500 (Fail ''Failed to save user'')
               \<or> (\<exists>u. fst (post_register toLowerCase e (Some name) (Some email) (Some token) s)
                  = Response 200 (Registered u))))
       \<and> (map_option tok_email (tokenStore s token) \<noteq> Some email
          \<longrightarrow> post_register toLowerCase e (Some name) (Some email) (Some token) s
              = (Response 400 (Fail ''Invalid or expired token''), s))
       \<and> (tokenStore s token = Some m
          \<longrightarrow> fst (post_register toLowerCase e (Some name) (Some email) (Some token)
                    (s\<lparr>tokenStore := (tokenStore s)(token \<mapsto> m\<lparr>tok_expiresAt := x\<rparr>)\<rparr>))
              = fst (post_register toLowerCase e (Some name) (Some email) (Some token) s))"
proof (intro conjI impI)
  assume "map_option tok_email (tokenStore s token) = Some email"
  then obtain m' where "tokenStore s token = Some m'" "tok_email m' = email"
    by auto
  with assms show "fst (post_register toLowerCase e (Some name) (Some email) (Some token) s)
              \<noteq> Response 400 (Fail ''Invalid or expired token'')"
      and "fst (post_register toLowerCase e (Some name) (Some email) (Some token) s)
                  = Response 400 (Fail ''User already exists'')
               \<or> fst (post_register toLowerCase e (Some name) (Some email) (Some token) s)
                  = Response 500 (Fail ''Failed to save user'')
               \<or> (\<exists>u. fst (post_register toLowerCase e (Some name) (Some email) (Some token) s)
                  = Response 200 (Registered u))"
    by (simp_all add: post_register_def writeUsers_def Let_def split: prod.splits option.splits)
next
  assume "map_option tok_email (tokenStore s token) \<noteq> Some email"
  with assms show "post_register toLowerCase e (Some name) (Some email) (Some token) s
              = (Response 400 (Fail ''Invalid or expired token''), s)"
    by (cases "tokenStore s token") (simp_all add: post_register_def)
next
  assume "tokenStore s token = Some m"
  with assms show "fst (post_register toLowerCase e (Some name) (Some email) (Some token)
                    (s\<lparr>tokenStore := (tokenStore s)(token \<mapsto> m\<lparr>tok_expiresAt := x\<rparr>)\<rparr>))
              = fst (post_register toLowerCase e (Some name) (Some email) (Some token) s)"
    by (simp add: post_register_def writeUsers_def Let_def split: prod.splits option.splits)
qed

theorem register_token_gate_witness:
  "map_option tok_email (tokenStore server2 token0) = Some ''a@x.com''
   \<and> fst (post_register ascii_toLowerCase (env_at 930000) (Some ''Alice'') (Some ''a@x.com'') (Some token0) server2)
       \<noteq> Response 400 (Fail ''Invalid or expired token'')
   \<and> fst (post_register ascii_toLowerCase (env_at 930000) (Some ''Alice'') (Some ''a@x.com'') (Some token0) server2)
       = Response 200 (Registered (alice\<lparr>createdAt := 930000\<rparr>))
   \<and> map_option tok_email (tokenStore server2 token0) \<noteq> Some ''b@x.com''
   \<and> post_register ascii_toLowerCase (env_at 930000) (Some ''Bob'') (Some ''b@x.com'') (Some token0) server2
       = (Response 400 (Fail ''Invalid or expired token''), server2)
   \<and> fst (post_register ascii_toLowerCase (env_at 930000) (Some ''Alice'') (Some ''a@x.com'') (Some token0)
            (server2\<lparr>tokenStore := (tokenStore server2)(token0 \<mapsto>
                \<lparr>tok_email = ''a@x.com'', tok_expiresAt = 5\<rparr>)\<rparr>))
       = fst (post_register ascii_toLowerCase (env_at 930000) (Some ''Alice'') (Some ''a@x.com'') (Some token0) server2)"
  using register_token_gate [where toLowerCase = ascii_toLowerCase and name = "''Alice''" and email = "''a@x.com''"
        and token = token0 and s = server2 and e = "env_at 930000"
        and m = "\<lparr>tok_email = ''a@x.com'', tok_expiresAt = 901000\<rparr>" and x = 5]
      register_token_gate [where toLowerCase = ascii_toLowerCase and name = "''Bob''" and email = "''b@x.com''"
        and token = token0 and s = server2 and e = "env_at 930000"]
      server2_token register_late
  by (simp add: token0_nonempty)

text \<open>
  C1 as stated fails on a token whose expiry has passed and which the janitor has not
  yet removed. In the state \<open>server2\<close> the token expires at 901000; the janitor ran
  at 900000 (\<open>reach2\<close>) and runs next at 960000. A \<^verbatim>\<open>/register\<close> at 930000 with that
  token is answered 200, the user is written and the token is deleted.
\<close>

theorem register_expired_token_counterexample:
  "tokenStore server2 token0 = Some \<lparr>tok_email = ''a@x.com'', tok_expiresAt = 901000\<rparr>
   \<and> (901000::int) < now1 (env_at 930000)
   \<and> post_register ascii_toLowerCase (env_at 930000) (Some ''Alice'') (Some ''a@x.com'') (Some token0) server2
       = (Response 200 (Registered (alice\<lparr>createdAt := 930000\<rparr>)),
          server2\<lparr>users_file := Some [alice\<lparr>createdAt := 930000\<rparr>],
                  tokenStore := (tokenStore server2)(token0 := None)\<rparr>)"
  using register_late server2_token by (simp add: env_at_simps)

section \<open>Expired challenges\<close>

text \<open>
  C4. When the challenge stored for the email has \<open>now > expiresAt\<close>, a
  \<^verbatim>\<open>/verify-otp\<close> with email and code present deletes the challenge and answers 400
  "OTP expired", whatever the submitted code and whatever the attempts count; the rest
  of the state, the token store included, is as before, so no token is minted.
\<close>

theorem verify_otp_expired:
  assumes "email \<noteq> []" "code \<noteq> []"
    and "otpStore s email = Some ch"
    and "now1 e > expiresAt ch"
  shows "post_verify_otp cfg e (Some email) (Some code) s
         = (Response 400 (Fail ''OTP expired''), s\<lparr>otpStore := (otpStore s)(email := None)\<rparr>)
       \<and> tokenStore (snd (post_verify_otp cfg e (Some email) (Some code) s)) = tokenStore s"
  using assms by (simp add: post_verify_otp_def)

text \<open>The spec's example: the right code, 301 seconds after a challenge with a TTL of 300.\<close>

theorem verify_otp_expired_witness:
  "otpStore server1 ''a@x.com'' = Some \<lparr>otp = ''123456'', expiresAt = 300000, attempts = 0\<rparr>
   \<and> now1 (env_at 301000) > 300000
   \<and> post_verify_otp default_config (env_at 301000) (Some ''a@x.com'') (Some ''123456'') server1
       = (Response 400 (Fail ''OTP expired''),
          server1\<lparr>otpStore := (otpStore server1)(''a@x.com'' := None)\<rparr>)
   \<and> tokenStore (snd (post_verify_otp default_config (env_at 301000) (Some ''a@x.com'')
         (Some ''123456'') server1)) = tokenStore server1"
proof -
  have t: "now1 (env_at 301000) > 300000" by (simp add: env_at_simps)
  show ?thesis
    using verify_otp_expired [of "''a@x.com''" "''123456''" server1 _ "env_at 301000"
        default_config, OF _ _ server1_otp]
      server1_otp t by simp
qed

section \<open>Resending too soon\<close>

text \<open>
  C5. When the email has a stored challenge that is not expired at the handler's first
  clock reading and whose remaining lifetime at the second reading exceeds the
  configured OTP lifetime minus 250 seconds, \<^verbatim>\<open>/send-otp\<close> answers 429 "Try again
  later" and the state is as before: the challenge is unchanged and the transporter was
  not called. In particular, with the default lifetime of 300 seconds, a second request
  within 300 - 250 seconds of one that stored a challenge is turned away.
\<close>

theorem send_otp_rate_limit:
  "(email \<noteq> [] \<and> otpStore s email = Some ch \<and> expiresAt ch > now1 e
      \<and> expiresAt ch - now2 e > (OTP_EXPIRES_SECONDS cfg - 250) * 1000
    \<longrightarrow> post_send_otp cfg e (Some email) s = (Response 429 (Fail ''Try again later''), s))
   \<and> (email \<noteq> [] \<and> post_send_otp default_config ea (Some email) sa = (ra, sb)
      \<and> status ra \<noteq> 429
      \<and> now1 eb - now3 ea < (OTP_EXPIRES_SECONDS default_config - 250) * 1000
      \<and> now2 eb - now3 ea < (OTP_EXPIRES_SECONDS default_config - 250) * 1000
    \<longrightarrow> post_send_otp default_config eb (Some email) sb
        = (Response 429 (Fail ''Try again later''), sb))"
proof (intro conjI impI)
  assume "email \<noteq> [] \<and> otpStore s email = Some ch \<and> expiresAt ch > now1 e
      \<and> expiresAt ch - now2 e > (OTP_EXPIRES_SECONDS cfg - 250) * 1000"
  then show "post_send_otp cfg e (Some email) s = (Response 429 (Fail ''Try again later''), s)"
    by (simp add: post_send_otp_def ceil_gt)
next
  assume a: "email \<noteq> [] \<and> post_send_otp default_config ea (Some email) sa = (ra, sb)
      \<and> status ra \<noteq> 429
      \<and> now1 eb - now3 ea < (OTP_EXPIRES_SECONDS default_config - 250) * 1000
      \<and> now2 eb - now3 ea < (OTP_EXPIRES_SECONDS default_config - 250) * 1000"
  then have st: "otpStore sb email
      = Some \<lparr>otp = generateOTP 6 (random_digit ea),
              expiresAt = now3 ea + OTP_EXPIRES_SECONDS default_config * 1000, attempts = 0\<rparr>"
    using send_otp_stores by blast
  from a have "now1 eb < now3 ea + 50000" "now2 eb < now3 ea + 50000"
    by (simp_all add: default_config_def)
  with a st show "post_send_otp default_config eb (Some email) sb
        = (Response 429 (Fail ''Try again later''), sb)"
    by (simp add: post_send_otp_def ceil_gt default_config_def)
qed

theorem send_otp_rate_limit_witness:
  "otpStore server1 ''a@x.com'' = Some \<lparr>otp = ''123456'', expiresAt = 300000, attempts = 0\<rparr>
   \<and> (300000::int) > now1 (env_at 49999)
   \<and> (300000::int) - now2 (env_at 49999) > (OTP_EXPIRES_SECONDS default_config - 250) * 1000
   \<and> post_send_otp default_config (env_at 0) (Some ''a@x.com'') server0
       = (Response 200 OtpSent, server1)
   \<and> status (Response 200 OtpSent) \<noteq> 429
   \<and> now1 (env_at 49999) - now3 (env_at 0) < (OTP_EXPIRES_SECONDS default_config - 250) * 1000
   \<and> now2 (env_at 49999) - now3 (env_at 0) < (OTP_EXPIRES_SECONDS default_config - 250) * 1000
   \<and> post_send_otp default_config (env_at 49999) (Some ''a@x.com'') server1
       = (Response 429 (Fail ''Try again later''), server1)"
proof -
  have "post_send_otp default_config (env_at 49999) (Some ''a@x.com'') server1
       = (Response 429 (Fail ''Try again later''), server1)"
    using send_otp_rate_limit [where email = "''a@x.com''" and s = server1
        and e = "env_at 49999" and cfg = default_config
        and ch = "\<lparr>otp = ''123456'', expiresAt = 300000, attempts = 0\<rparr>"
        and ea = "env_at 0" and sa = server0 and ra = "Response 200 OtpSent"
        and sb = server1 and eb = "env_at 49999"]
      server1_otp send1
    by (simp add: env_at_simps default_config_simps)
  then show ?thesis
    using server1_otp send1 by (simp add: env_at_simps default_config_simps)
qed

section \<open>A successful verification\<close>

text \<open>
  C6. When a challenge is stored for the email and is not expired, its attempts count
  after the increment is at most 6 and the submitted code is the stored one,
  \<^verbatim>\<open>/verify-otp\<close> deletes the challenge, stores under a newly generated token the
  request's email with the expiry \<open>now\<close> plus the configured token lifetime (in
  milliseconds), and answers 200 with that token. The token is 40 characters long, all
  of them lower-case hexadecimal digits. It is fresh in that it spells the 20 random
  bytes drawn in this call and nothing else: any other draw of 20 bytes gives another
  token, so the token is not yet in the token store when every stored token spells a
  draw that differs from this one. The default token lifetime is 900 seconds.
\<close>

theorem verify_otp_success:
  assumes "email \<noteq> []" "code \<noteq> []"
    and "otpStore s email = Some ch"
    and "\<not> now1 e > expiresAt ch"
    and "attempts ch + 1 \<le> 6"
    and "code = otp ch"
    and "token = generateToken (random_byte e)"
  shows "post_verify_otp cfg e (Some email) (Some code) s
         = (Response 200 (Verified token),
            s\<lparr>tokenStore := (tokenStore s)(token \<mapsto>
                  \<lparr>tok_email = email,
                   tok_expiresAt = now2 e + TOKEN_EXPIRES_SECONDS cfg * 1000\<rparr>),
              otpStore := (otpStore s)(email := None)\<rparr>)
         \<and> length token = 40 \<and> list_all is_hex token
         \<and> (generateToken r = token) = (\<forall>i<20. r i = random_byte e i)
         \<and> ((\<forall>k. tokenStore s k \<noteq> None \<longrightarrow>
                 (\<exists>r'. k = generateToken r' \<and> (\<exists>i<20. r' i \<noteq> random_byte e i)))
              \<longrightarrow> tokenStore s token = None)
         \<and> TOKEN_EXPIRES_SECONDS default_config = 900"
proof -
  have len: "length token = 40"
    using assms(7) by (simp add: generateToken_def len_hex randomBytes_def)
  have hex: "list_all is_hex token"
    using assms(7) by (simp add: generateToken_def hex_all)
  have inj: "(generateToken r = token) = (\<forall>i<20. r i = random_byte e i)"
    using assms(7) by (simp only: generateToken_eq_iff)
  have new: "tokenStore s token = None"
    if other: "\<forall>k. tokenStore s k \<noteq> None \<longrightarrow>
                 (\<exists>r'. k = generateToken r' \<and> (\<exists>i<20. r' i \<noteq> random_byte e i))"
  proof (rule ccontr)
    assume "tokenStore s token \<noteq> None"
    with other obtain r' where r': "token = generateToken r'"
      and diff: "\<exists>i<20. r' i \<noteq> random_byte e i"
      by blast
    from r' assms(7) have "generateToken r' = generateToken (random_byte e)"
      by simp
    then have "\<forall>i<20. r' i = random_byte e i"
      by (simp only: generateToken_eq_iff)
    with diff show False by blast
  qed
  have res: "post_verify_otp cfg e (Some email) (Some code) s
         = (Response 200 (Verified token),
            s\<lparr>tokenStore := (tokenStore s)(token \<mapsto>
                  \<lparr>tok_email = email,
                   tok_expiresAt = now2 e + TOKEN_EXPIRES_SECONDS cfg * 1000\<rparr>),
              otpStore := (otpStore s)(email := None)\<rparr>)"
    using assms by (simp add: post_verify_otp_def Let_def)
  have dflt: "TOKEN_EXPIRES_SECONDS default_config = 900"
    by (simp add: default_config_def)
  from res len hex inj new dflt show ?thesis
    by blast
qed

text \<open>
  In \<open>server_b\<close> the token store holds \<open>token0\<close>, drawn from bytes \<open>0xab\<close>. A
  verification that draws zero bytes mints another token, which was not in the store.
\<close>

theorem verify_otp_success_witness:
  "otpStore server_b ''b@x.com'' = Some \<lparr>otp = ''123456'', expiresAt = 700000, attempts = 0\<rparr>
   \<and> \<not> now1 env_zero > 700000
   \<and> token_zero = generateToken (random_byte env_zero)
   \<and> post_verify_otp default_config env_zero (Some ''b@x.com'') (Some ''123456'') server_b
       = (Response 200 (Verified token_zero),
          server_b\<lparr>tokenStore := (tokenStore server_b)(token_zero \<mapsto>
                  \<lparr>tok_email = ''b@x.com'', tok_expiresAt = 1400000\<rparr>),
              otpStore := (otpStore server_b)(''b@x.com'' := None)\<rparr>)
   \<and> length token_zero = 40 \<and> list_all is_hex token_zero
   \<and> generateToken (random_byte env0) \<noteq> token_zero
   \<and> tokenStore server_b token0 = Some \<lparr>tok_email = ''a@x.com'', tok_expiresAt = 901000\<rparr>
   \<and> tokenStore server_b token_zero = None"
proof -
  note inst = verify_otp_success [where email = "''b@x.com''" and s = server_b and e = env_zero
        and cfg = default_config and code = "''123456''" and token = token_zero
        and ch = "\<lparr>otp = ''123456'', expiresAt = 700000, attempts = 0\<rparr>"
        and r = "random_byte env0"]
  have t: "\<not> now1 env_zero > 700000"
    by (simp add: env_zero_simps)
  have d: "\<not> (\<forall>i<20. random_byte env0 i = random_byte env_zero i)"
    by (simp add: env0_def env_zero_simps) (rule exI [of _ 0], simp)
  have all: "post_verify_otp default_config env_zero (Some ''b@x.com'') (Some ''123456'') server_b
         = (Response 200 (Verified token_zero),
            server_b\<lparr>tokenStore := (tokenStore server_b)(token_zero \<mapsto>
                  \<lparr>tok_email = ''b@x.com'',
                   tok_expiresAt = now2 env_zero + TOKEN_EXPIRES_SECONDS default_config * 1000\<rparr>),
              otpStore := (otpStore server_b)(''b@x.com'' := None)\<rparr>)
         \<and> length token_zero = 40 \<and> list_all is_hex token_zero
         \<and> (generateToken (random_byte env0) = token_zero)
             = (\<forall>i<20. random_byte env0 i = random_byte env_zero i)
         \<and> ((\<forall>k. tokenStore server_b k \<noteq> None \<longrightarrow>
                 (\<exists>r'. k = generateToken r' \<and> (\<exists>i<20. r' i \<noteq> random_byte env_zero i)))
              \<longrightarrow> tokenStore server_b token_zero = None)
         \<and> TOKEN_EXPIRES_SECONDS default_config = 900"
    using inst server_b_otp t token_env_zero by simp
  have exp: "now2 env_zero + TOKEN_EXPIRES_SECONDS default_config * 1000 = 1400000"
    by (simp add: env_zero_simps default_config_simps)
  from all d server_b_other_draws have "generateToken (random_byte env0) \<noteq> token_zero"
    and "tokenStore server_b token_zero = None"
    by blast+
  with all exp server_b_otp t token_env_zero server_b_tokens(1) show ?thesis
    by simp
qed

section \<open>Profile lookup\<close>

text \<open>
  C9, as the code has it. For \<^verbatim>\<open>GET /me\<close>: with no token, or an empty one, the answer
  is 401 "Token required"; with a token that is not in the token store it is 401
  "Invalid or expired token"; a token that is in the store is accepted whether or not
  its expiry has passed; then, when no user of the list that \<^verbatim>\<open>readUsers\<close> returns has
  the token's email (both lower-cased by \<^verbatim>\<open>toLowerCase\<close>, for every function
  \<open>toLowerCase\<close> and so for the one of JavaScript), the answer is 404 "User not
  found", and otherwise 200 with the first such user. \<^verbatim>\<open>readUsers\<close> returns the
  stored users when the file is read, and the empty list when reading throws.
\<close>

theorem get_me_cases:
  "(request_token header query = None \<or> request_token header query = Some []
      \<longrightarrow> get_me toLowerCase e header query s = (Response 401 (Fail ''Token required''), s))
   \<and> (request_token header query = Some token \<and> token \<noteq> [] \<and> tokenStore s token = None
      \<longrightarrow> get_me toLowerCase e header query s = (Response 401 (Fail ''Invalid or expired token''), s))
   \<and> (request_token header query = Some token \<and> token \<noteq> [] \<and> tokenStore s token = Some m
        \<and> find (same_email toLowerCase (tok_email m)) (fst (readUsers e (users_file s))) = None
      \<longrightarrow> fst (get_me toLowerCase e header query s) = Response 404 (Fail ''User not found''))
   \<and> (request_token header query = Some token \<and> token \<noteq> [] \<and> tokenStore s token = Some m
        \<and> find (same_email toLowerCase (tok_email m)) (fst (readUsers e (users_file s))) = Some u
      \<longrightarrow> fst (get_me toLowerCase e header query s) = Response 200 (Profile u))
   \<and> (request_token header query = Some token \<and> tokenStore s token = Some m
      \<longrightarrow> fst (get_me toLowerCase e header query
                (s\<lparr>tokenStore := (tokenStore s)(token \<mapsto> m\<lparr>tok_expiresAt := x\<rparr>)\<rparr>))
          = fst (get_me toLowerCase e header query s))"
  by (auto simp: get_me_def Let_def split: prod.splits option.splits)

theorem get_me_cases_witness:
  "request_token None None = None
   \<and> get_me ascii_toLowerCase (env_at 402000) None None server4 = (Response 401 (Fail ''Token required''), server4)
   \<and> request_token None (Some ''feed'') = Some ''feed'' \<and> tokenStore server4 ''feed'' = None
   \<and> get_me ascii_toLowerCase (env_at 402000) None (Some ''feed'') server4
     = (Response 401 (Fail ''Invalid or expired token''), server4)
   \<and> request_token (Some token0) None = Some token0
   \<and> tokenStore server2 token0 = Some \<lparr>tok_email = ''a@x.com'', tok_expiresAt = 901000\<rparr>
   \<and> find (same_email ascii_toLowerCase ''a@x.com'') (fst (readUsers (env_at 3000) (users_file server2))) = None
   \<and> fst (get_me ascii_toLowerCase (env_at 3000) (Some token0) None server2) = Response 404 (Fail ''User not found'')
   \<and> tokenStore server4 token0 = Some \<lparr>tok_email = ''A@X.COM'', tok_expiresAt = 1301000\<rparr>
   \<and> find (same_email ascii_toLowerCase ''A@X.COM'') (fst (readUsers (env_at 402000) (users_file server4)))
     = Some alice
   \<and> fst (get_me ascii_toLowerCase (env_at 402000) (Some token0) None server4) = Response 200 (Profile alice)
   \<and> fst (get_me ascii_toLowerCase (env_at 402000) (Some token0) None
          (server4\<lparr>tokenStore := (tokenStore server4)(token0 \<mapsto>
              \<lparr>tok_email = ''A@X.COM'', tok_expiresAt = 5\<rparr>)\<rparr>))
     = Response 200 (Profile alice)"
proof -
  have rt: "request_token None None = None" "request_token None (Some ''feed'') = Some ''feed''"
    "request_token (Some token0) None = Some token0"
    by (simp_all add: request_token_def token0_nonempty)
  have nf: "tokenStore server4 ''feed'' = None"
    by (simp add: server4_def token0_def)
  have f2: "find (same_email ascii_toLowerCase ''a@x.com'') (fst (readUsers (env_at 3000) (users_file server2))) = None"
    by (simp add: readUsers_def server2_def env_at_simps)
  have f4: "find (same_email ascii_toLowerCase ''A@X.COM'') (fst (readUsers (env_at 402000) (users_file server4)))
     = Some alice"
    by (simp add: readUsers_def server4_def env_at_simps same_email_alice)
  show ?thesis
    using get_me_cases [where toLowerCase = ascii_toLowerCase and header = None and query = None and s = server4
        and e = "env_at 402000"]
      get_me_cases [where toLowerCase = ascii_toLowerCase and header = None and query = "Some ''feed''" and s = server4
        and e = "env_at 402000" and token = "''feed''"]
      get_me_cases [where toLowerCase = ascii_toLowerCase and header = "Some token0" and query = None and s = server2
        and e = "env_at 3000" and token = token0
        and m = "\<lparr>tok_email = ''a@x.com'', tok_expiresAt = 901000\<rparr>"]
      get_me_cases [where toLowerCase = ascii_toLowerCase and header = "Some token0" and query = None and s = server4
        and e = "env_at 402000" and token = token0 and u = alice and x = 5
        and m = "\<lparr>tok_email = ''A@X.COM'', tok_expiresAt = 1301000\<rparr>"]
      rt nf f2 f4 server2_token server4_token
    by (simp add: token0_nonempty)
qed

text \<open>
  C9 as stated fails twice. A token whose expiry has passed and which the janitor has
  not yet removed is accepted: in \<open>server4\<close> the token expires at 1301000, the janitor
  ran at 1300000 (\<open>reach4\<close>), and \<^verbatim>\<open>/me\<close> at 1330000 answers 200 with Alice. And
  with an unexpired token whose email matches a stored user, the answer is 404 when
  reading the users file throws.
\<close>

theorem get_me_expired_token_counterexample:
  "tokenStore server4 token0 = Some \<lparr>tok_email = ''A@X.COM'', tok_expiresAt = 1301000\<rparr>
   \<and> (1301000::int) < now1 (env_at 1330000)
   \<and> get_me ascii_toLowerCase (env_at 1330000) (Some token0) None server4 = (Response 200 (Profile alice), server4)
   \<and> users_file server4 = Some [alice] \<and> same_email ascii_toLowerCase ''A@X.COM'' alice
   \<and> now1 env_unreadable < 1301000
   \<and> readJson_fails env_unreadable
   \<and> get_me ascii_toLowerCase env_unreadable (Some token0) None server4
       = (Response 404 (Fail ''User not found''), server4)"
  using same_email_alice
  by (simp add: get_me_def request_token_def server4_def env_at_simps env_unreadable_simps
      readUsers_def token0_nonempty Let_def)

section \<open>Counting attempts\<close>

text \<open>
  A run of wrong codes against a live challenge: each is answered 400 "Invalid OTP" and
  counted, as long as the count stays at most 6.
\<close>

lemma wrong_tries_parts:
  assumes "email \<noteq> []"
  shows "run toLowerCase cfg (map (verify_event email) tries) s = (rs, s') \<Longrightarrow>
         otpStore s email = Some ch \<Longrightarrow> attempts ch + length tries \<le> 6 \<Longrightarrow>
         \<forall>t\<in>set tries. snd t \<noteq> [] \<and> snd t \<noteq> otp ch \<and> \<not> now1 (fst t) > expiresAt ch \<Longrightarrow>
         rs = replicate (length tries) (Response 400 (Fail ''Invalid OTP''))
         \<and> otpStore s' = (otpStore s)(email \<mapsto> ch\<lparr>attempts := attempts ch + length tries\<rparr>)
         \<and> tokenStore s' = tokenStore s \<and> users_file s' = users_file s
         \<and> sendMail_calls s' = sendMail_calls s"
proof (induction tries arbitrary: s ch rs)
  case Nil
  then have "(otpStore s)(email \<mapsto> ch) = otpStore s"
    by (simp add: map_upd_triv)
  with Nil show ?case by simp
next
  case (Cons t tries)
  let ?ch1 = "ch\<lparr>attempts := attempts ch + 1\<rparr>"
  let ?s1 = "s\<lparr>otpStore := (otpStore s)(email \<mapsto> ?ch1)\<rparr>"
  have "post_verify_otp cfg (fst t) (Some email) (Some (snd t)) s
               = (Response 400 (Fail ''Invalid OTP''), ?s1)"
    using Cons.prems assms by (simp add: post_verify_otp_def Let_def)
  then have first: "step toLowerCase cfg (verify_event email t) s = ([Response 400 (Fail ''Invalid OTP'')], ?s1)"
    by (simp add: verify_event_def)
  obtain rs2 where rest: "run toLowerCase cfg (map (verify_event email) tries) ?s1 = (rs2, s')"
    and rs: "rs = Response 400 (Fail ''Invalid OTP'') # rs2"
    using Cons.prems(1) first by (auto split: prod.splits)
  have "rs2 = replicate (length tries) (Response 400 (Fail ''Invalid OTP''))
         \<and> otpStore s' = (otpStore ?s1)(email \<mapsto> ?ch1\<lparr>attempts := attempts ?ch1 + length tries\<rparr>)
         \<and> tokenStore s' = tokenStore ?s1 \<and> users_file s' = users_file ?s1
         \<and> sendMail_calls s' = sendMail_calls ?s1"
    using Cons.prems by (intro Cons.IH [OF rest]) simp_all
  with rs show ?case by simp
qed

lemma wrong_tries:
  assumes "email \<noteq> []" "otpStore s email = Some ch" "attempts ch + length tries \<le> 6"
    and "\<forall>t\<in>set tries. snd t \<noteq> [] \<and> snd t \<noteq> otp ch \<and> \<not> now1 (fst t) > expiresAt ch"
  shows "run toLowerCase cfg (map (verify_event email) tries) s
         = (replicate (length tries) (Response 400 (Fail ''Invalid OTP'')),
            s\<lparr>otpStore := (otpStore s)(email \<mapsto> ch\<lparr>attempts := attempts ch + length tries\<rparr>)\<rparr>)"
proof -
  obtain rs s' where r: "run toLowerCase cfg (map (verify_event email) tries) s = (rs, s')"
    by (cases "run toLowerCase cfg (map (verify_event email) tries) s")
  note p = wrong_tries_parts [OF assms(1) r assms(2) assms(3) assms(4)]
  have "s' = s\<lparr>otpStore := (otpStore s)(email \<mapsto> ch\<lparr>attempts := attempts ch + length tries\<rparr>)\<rparr>"
    using p by (intro server_eqI) simp_all
  with r p show ?thesis by simp
qed

text \<open>
  C3. For an email with a stored, unexpired challenge, \<^verbatim>\<open>/verify-otp\<close> (email and code
  present) adds one to the attempts count before it compares the codes: when the count
  then exceeds 6 the challenge is deleted and the answer is 429 "Too many attempts",
  whatever the code, the right one included; otherwise a wrong code is answered 400
  "Invalid OTP" and the challenge is kept with the new count. In particular seven
  consecutive wrong codes against a fresh challenge are answered six times 400 and the
  seventh time 429, the challenge is then gone, and a further verification is answered
  400 "No OTP requested or already used".
\<close>

theorem verify_otp_attempt_limit:
  "(email \<noteq> [] \<and> code \<noteq> [] \<and> otpStore s email = Some ch \<and> \<not> now1 e > expiresAt ch
      \<and> attempts ch + 1 > 6
    \<longrightarrow> post_verify_otp cfg e (Some email) (Some code) s
        = (Response 429 (Fail ''Too many attempts''),
           s\<lparr>otpStore := (otpStore s)(email := None)\<rparr>))
   \<and> (email \<noteq> [] \<and> code \<noteq> [] \<and> otpStore s email = Some ch \<and> \<not> now1 e > expiresAt ch
      \<and> attempts ch + 1 \<le> 6 \<and> code \<noteq> otp ch
    \<longrightarrow> post_verify_otp cfg e (Some email) (Some code) s
        = (Response 400 (Fail ''Invalid OTP''),
           s\<lparr>otpStore := (otpStore s)(email \<mapsto> ch\<lparr>attempts := attempts ch + 1\<rparr>)\<rparr>))
   \<and> (email \<noteq> [] \<and> code \<noteq> [] \<and> otpStore s email = Some ch \<and> attempts ch = 0
      \<and> length tries = 7
      \<and> (\<forall>t\<in>set tries. snd t \<noteq> [] \<and> snd t \<noteq> otp ch \<and> \<not> now1 (fst t) > expiresAt ch)
    \<longrightarrow> run toLowerCase cfg (map (verify_event email) tries) s
        = (replicate 6 (Response 400 (Fail ''Invalid OTP''))
             @ [Response 429 (Fail ''Too many attempts'')],
           s\<lparr>otpStore := (otpStore s)(email := None)\<rparr>)
      \<and> post_verify_otp cfg e (Some email) (Some code)
           (s\<lparr>otpStore := (otpStore s)(email := None)\<rparr>)
        = (Response 400 (Fail ''No OTP requested or already used''),
           s\<lparr>otpStore := (otpStore s)(email := None)\<rparr>))"
proof (intro conjI impI)
  assume "email \<noteq> [] \<and> code \<noteq> [] \<and> otpStore s email = Some ch \<and> \<not> now1 e > expiresAt ch
      \<and> attempts ch + 1 > 6"
  then show "post_verify_otp cfg e (Some email) (Some code) s
        = (Response 429 (Fail ''Too many attempts''),
           s\<lparr>otpStore := (otpStore s)(email := None)\<rparr>)"
    by (simp add: post_verify_otp_def Let_def)
next
  assume "email \<noteq> [] \<and> code \<noteq> [] \<and> otpStore s email = Some ch \<and> \<not> now1 e > expiresAt ch
      \<and> attempts ch + 1 \<le> 6 \<and> code \<noteq> otp ch"
  then show "post_verify_otp cfg e (Some email) (Some code) s
        = (Response 400 (Fail ''Invalid OTP''),
           s\<lparr>otpStore := (otpStore s)(email \<mapsto> ch\<lparr>attempts := attempts ch + 1\<rparr>)\<rparr>)"
    by (simp add: post_verify_otp_def Let_def)
next
  assume a: "email \<noteq> [] \<and> code \<noteq> [] \<and> otpStore s email = Some ch \<and> attempts ch = 0
      \<and> length tries = 7
      \<and> (\<forall>t\<in>set tries. snd t \<noteq> [] \<and> snd t \<noteq> otp ch \<and> \<not> now1 (fst t) > expiresAt ch)"
  then have "length tries = Suc 6" by simp
  then obtain t ts where tries: "tries = ts @ [t]" and len: "length ts = 6"
    unfolding length_Suc_conv_rev by blast
  let ?s6 = "s\<lparr>otpStore := (otpStore s)(email \<mapsto> ch\<lparr>attempts := attempts ch + length ts\<rparr>)\<rparr>"
  have six: "run toLowerCase cfg (map (verify_event email) ts) s
        = (replicate (length ts) (Response 400 (Fail ''Invalid OTP'')), ?s6)"
    using a tries len by (intro wrong_tries) simp_all
  have seventh: "post_verify_otp cfg (fst t) (Some email) (Some (snd t)) ?s6
        = (Response 429 (Fail ''Too many attempts''),
           s\<lparr>otpStore := (otpStore s)(email := None)\<rparr>)"
  proof -
    have "post_verify_otp cfg (fst t) (Some email) (Some (snd t)) ?s6
        = (Response 429 (Fail ''Too many attempts''),
           ?s6\<lparr>otpStore := (otpStore ?s6)(email := None)\<rparr>)"
      using a tries len by (simp add: post_verify_otp_def Let_def)
    moreover have "?s6\<lparr>otpStore := (otpStore ?s6)(email := None)\<rparr>
        = s\<lparr>otpStore := (otpStore s)(email := None)\<rparr>"
      by (intro server_eqI) simp_all
    ultimately show ?thesis by simp
  qed
  show "run toLowerCase cfg (map (verify_event email) tries) s
        = (replicate 6 (Response 400 (Fail ''Invalid OTP''))
             @ [Response 429 (Fail ''Too many attempts'')],
           s\<lparr>otpStore := (otpStore s)(email := None)\<rparr>)"
  proof -
    have "step toLowerCase cfg (verify_event email t) ?s6
          = ([Response 429 (Fail ''Too many attempts'')],
             s\<lparr>otpStore := (otpStore s)(email := None)\<rparr>)"
      using seventh by (simp add: verify_event_def)
    with six len show ?thesis
      by (simp add: tries run_append numeral_eq_Suc)
  qed
next
  assume "email \<noteq> [] \<and> code \<noteq> [] \<and> otpStore s email = Some ch \<and> attempts ch = 0
      \<and> length tries = 7
      \<and> (\<forall>t\<in>set tries. snd t \<noteq> [] \<and> snd t \<noteq> otp ch \<and> \<not> now1 (fst t) > expiresAt ch)"
  then show "post_verify_otp cfg e (Some email) (Some code)
           (s\<lparr>otpStore := (otpStore s)(email := None)\<rparr>)
        = (Response 400 (Fail ''No OTP requested or already used''),
           s\<lparr>otpStore := (otpStore s)(email := None)\<rparr>)"
    by (simp add: post_verify_otp_def)
qed

theorem verify_otp_attempt_limit_witness:
  "otpStore server1_six ''a@x.com''
     = Some \<lparr>otp = ''123456'', expiresAt = 300000, attempts = 6\<rparr>
   \<and> post_verify_otp default_config (env_at 8000) (Some ''a@x.com'') (Some ''123456'') server1_six
     = (Response 429 (Fail ''Too many attempts''),
        server1_six\<lparr>otpStore := (otpStore server1_six)(''a@x.com'' := None)\<rparr>)
   \<and> otpStore server1 ''a@x.com''
     = Some \<lparr>otp = ''123456'', expiresAt = 300000, attempts = 0\<rparr>
   \<and> post_verify_otp default_config (env_at 8000) (Some ''a@x.com'') (Some ''000000'') server1
     = (Response 400 (Fail ''Invalid OTP''),
        server1\<lparr>otpStore := (otpStore server1)(''a@x.com'' \<mapsto>
           \<lparr>otp = ''123456'', expiresAt = 300000, attempts = 1\<rparr>)\<rparr>)
   \<and> length tries7 = 7
   \<and> run ascii_toLowerCase default_config (map (verify_event ''a@x.com'') tries7) server1
     = ([Response 400 (Fail ''Invalid OTP''), Response 400 (Fail ''Invalid OTP''),
         Response 400 (Fail ''Invalid OTP''), Response 400 (Fail ''Invalid OTP''),
         Response 400 (Fail ''Invalid OTP''), Response 400 (Fail ''Invalid OTP''),
         Response 429 (Fail ''Too many attempts'')],
        server1\<lparr>otpStore := (otpStore server1)(''a@x.com'' := None)\<rparr>)
   \<and> post_verify_otp default_config (env_at 8000) (Some ''a@x.com'') (Some ''123456'')
        (server1\<lparr>otpStore := (otpStore server1)(''a@x.com'' := None)\<rparr>)
     = (Response 400 (Fail ''No OTP requested or already used''),
        server1\<lparr>otpStore := (otpStore server1)(''a@x.com'' := None)\<rparr>)"
proof -
  have len: "length tries7 = 7" by (simp add: tries7_def)
  have t: "\<not> now1 (env_at 8000) > 300000" by (simp add: env_at_simps)
  note six = verify_otp_attempt_limit [where toLowerCase = ascii_toLowerCase and email = "''a@x.com''" and code = "''123456''" and s = server1_six
      and ch = "\<lparr>otp = ''123456'', expiresAt = 300000, attempts = 6\<rparr>"
      and e = "env_at 8000" and cfg = default_config]
  note wrong = verify_otp_attempt_limit [where toLowerCase = ascii_toLowerCase and email = "''a@x.com''" and code = "''000000''" and s = server1
      and ch = "\<lparr>otp = ''123456'', expiresAt = 300000, attempts = 0\<rparr>"
      and e = "env_at 8000" and cfg = default_config]
  note seven = verify_otp_attempt_limit [where toLowerCase = ascii_toLowerCase and email = "''a@x.com''" and code = "''123456''" and s = server1
      and ch = "\<lparr>otp = ''123456'', expiresAt = 300000, attempts = 0\<rparr>"
      and e = "env_at 8000" and cfg = default_config and tries = tries7]
  have a: "post_verify_otp default_config (env_at 8000) (Some ''a@x.com'') (Some ''123456'') server1_six
     = (Response 429 (Fail ''Too many attempts''),
        server1_six\<lparr>otpStore := (otpStore server1_six)(''a@x.com'' := None)\<rparr>)"
    using six server1_six_otp t by simp
  have b: "post_verify_otp default_config (env_at 8000) (Some ''a@x.com'') (Some ''000000'') server1
     = (Response 400 (Fail ''Invalid OTP''),
        server1\<lparr>otpStore := (otpStore server1)(''a@x.com'' \<mapsto>
           \<lparr>otp = ''123456'', expiresAt = 300000, attempts = 0\<rparr>\<lparr>attempts := 0 + 1\<rparr>)\<rparr>)"
    using wrong server1_otp t by simp
  have c: "run ascii_toLowerCase default_config (map (verify_event ''a@x.com'') tries7) server1
        = (replicate 6 (Response 400 (Fail ''Invalid OTP''))
             @ [Response 429 (Fail ''Too many attempts'')],
           server1\<lparr>otpStore := (otpStore server1)(''a@x.com'' := None)\<rparr>)
      \<and> post_verify_otp default_config (env_at 8000) (Some ''a@x.com'') (Some ''123456'')
           (server1\<lparr>otpStore := (otpStore server1)(''a@x.com'' := None)\<rparr>)
        = (Response 400 (Fail ''No OTP requested or already used''),
           server1\<lparr>otpStore := (otpStore server1)(''a@x.com'' := None)\<rparr>)"
    using seven server1_otp len tries7_wrong by simp
  have d: "replicate 6 (Response 400 (Fail ''Invalid OTP''))
      = [Response 400 (Fail ''Invalid OTP''), Response 400 (Fail ''Invalid OTP''),
         Response 400 (Fail ''Invalid OTP''), Response 400 (Fail ''Invalid OTP''),
         Response 400 (Fail ''Invalid OTP''), Response 400 (Fail ''Invalid OTP'')]"
    by (simp add: numeral_eq_Suc)
  have e: "server1\<lparr>otpStore := (otpStore server1)(''a@x.com'' \<mapsto>
           \<lparr>otp = ''123456'', expiresAt = 300000, attempts = 0\<rparr>\<lparr>attempts := 0 + 1\<rparr>)\<rparr>
     = server1\<lparr>otpStore := (otpStore server1)(''a@x.com'' \<mapsto>
           \<lparr>otp = ''123456'', expiresAt = 300000, attempts = 1\<rparr>)\<rparr>"
    by (intro server_eqI) simp_all
  show ?thesis
    using a b c d e server1_six_otp server1_otp len by simp
qed

section \<open>A token registers once\<close>

lemma step_keeps_absent:
  assumes "tokenStore s t = None" "\<not> mints t ev"
  shows "tokenStore (snd (step toLowerCase cfg ev s)) t = None"
proof (cases ev)
  case (Sweep now)
  with assms show ?thesis by (simp add: janitor_def)
next
  case (Http e rq)
  show ?thesis
  proof (cases rq)
    case (SendOtp email)
    with Http assms show ?thesis
      by (simp add: post_send_otp_def Let_def split: option.splits)
  next
    case (VerifyOtp email code)
    with Http assms show ?thesis
      by (auto simp: post_verify_otp_def Let_def split: option.splits)
  next
    case (Register name email token)
    with Http assms show ?thesis
      by (simp add: post_register_def writeUsers_def Let_def split: option.splits prod.splits)
  next
    case (Exists email)
    with Http assms show ?thesis
      by (simp add: post_exists_def split: option.splits prod.splits)
  next
    case (Me header query)
    with Http assms show ?thesis
      by (simp add: get_me_def split: option.splits prod.splits)
  qed
qed

lemma run_keeps_absent:
  "tokenStore s t = None \<Longrightarrow> \<forall>ev\<in>set evs. \<not> mints t ev \<Longrightarrow>
   tokenStore (snd (run toLowerCase cfg evs s)) t = None"
proof (induction evs arbitrary: s)
  case Nil
  then show ?case by simp
next
  case (Cons ev evs)
  then have "tokenStore (snd (step toLowerCase cfg ev s)) t = None"
    by (simp add: step_keeps_absent)
  then have "tokenStore (snd (run toLowerCase cfg evs (snd (step toLowerCase cfg ev s)))) t = None"
    using Cons.prems by (intro Cons.IH) simp_all
  then show ?case
    by (simp only: snd_run_Cons)
qed

lemma register_ok_deletes:
  assumes "post_register toLowerCase e name_field email_field (Some t) s = (r, s')" "status r = 200"
  shows "tokenStore s' t = None"
  using assms
  by (auto simp: post_register_def writeUsers_def Let_def
      split: option.splits prod.splits if_splits)

text \<open>
  C2. When a \<^verbatim>\<open>/register\<close> presenting the token \<open>t\<close> is answered 200, \<open>t\<close> is no
  longer in the token store; and after any further events, none of which is a
  verification that draws the very same 20 random bytes again, every \<^verbatim>\<open>/register\<close>
  presenting \<open>t\<close> (with name and email present) is answered 400 "Invalid or expired
  token" and changes nothing.
\<close>

theorem register_token_single_use:
  assumes "post_register toLowerCase e name_field email_field (Some t) s = (r, s')"
    and "status r = 200"
    and "\<forall>ev\<in>set evs. \<not> mints t ev"
    and "name \<noteq> []" "email \<noteq> []"
  shows "tokenStore s' t = None
       \<and> post_register toLowerCase e' (Some name) (Some email) (Some t) (snd (run toLowerCase cfg evs s'))
         = (Response 400 (Fail ''Invalid or expired token''), snd (run toLowerCase cfg evs s'))"
proof -
  have gone: "tokenStore s' t = None"
    using assms(1,2) by (rule register_ok_deletes)
  then have "tokenStore (snd (run toLowerCase cfg evs s')) t = None"
    using assms(3) by (rule run_keeps_absent)
  moreover have "t \<noteq> []"
    using assms(1,2) by (auto simp: post_register_def split: option.splits if_splits)
  ultimately show ?thesis
    using gone assms(4,5) by (simp add: post_register_def)
qed

theorem register_token_single_use_witness:
  "post_register ascii_toLowerCase (env_at 2000) (Some ''Alice'') (Some ''a@x.com'') (Some token0) server2
     = (Response 200 (Registered alice), server3)
   \<and> status (Response 200 (Registered alice)) = 200
   \<and> list_all (\<lambda>ev. \<not> mints token0 ev) events_after
   \<and> tokenStore server3 token0 = None
   \<and> post_register ascii_toLowerCase (env_at 500000) (Some ''Alice'') (Some ''a@x.com'') (Some token0)
        (snd (run ascii_toLowerCase default_config events_after server3))
     = (Response 400 (Fail ''Invalid or expired token''),
        snd (run ascii_toLowerCase default_config events_after server3))"
proof -
  have m: "\<forall>ev\<in>set events_after. \<not> mints token0 ev"
    by (simp add: events_after_def)
  show ?thesis
    using register_token_single_use [where name = "''Alice''" and email = "''a@x.com''"
        and e' = "env_at 500000" and cfg = default_config, OF register2 _ m]
      register2 m
    by (simp add: list_all_iff)
qed

section \<open>Duplicate emails\<close>

lemma find_same_email_None:
  "find (same_email toLowerCase email) users = None \<Longrightarrow>
   toLowerCase email \<notin> set (map (\<lambda>u. toLowerCase (user_email u)) users)"
  by (auto simp: find_None_iff same_email_def)

lemma readUsers_unique:
  "unique_emails toLowerCase (directory f) \<Longrightarrow> readUsers e f = (users, f') \<Longrightarrow>
   unique_emails toLowerCase users \<and> unique_emails toLowerCase (directory f')"
  by (auto simp: readUsers_def directory_def unique_emails_def split: option.splits if_splits)

lemma register_file:
  "users_file (snd (post_register toLowerCase e name email token s)) = users_file s
   \<or> users_file (snd (post_register toLowerCase e name email token s)) = snd (readUsers e (users_file s))
   \<or> (\<exists>u. find (same_email toLowerCase (user_email u)) (fst (readUsers e (users_file s))) = None
          \<and> users_file (snd (post_register toLowerCase e name email token s))
            = Some (fst (readUsers e (users_file s)) @ [u]))"
  by (simp add: post_register_def writeUsers_def Let_def case_prod_beta split: option.splits)

lemma unique_snoc:
  "unique_emails toLowerCase users \<Longrightarrow> find (same_email toLowerCase (user_email u)) users = None \<Longrightarrow>
   unique_emails toLowerCase (users @ [u])"
  using find_same_email_None [of toLowerCase "user_email u" users] by (simp add: unique_emails_def)

lemma register_unique:
  assumes "unique_emails toLowerCase (directory (users_file s))"
  shows "unique_emails toLowerCase (directory (users_file (snd (post_register toLowerCase e name email token s))))"
proof -
  obtain users f1 where r: "readUsers e (users_file s) = (users, f1)"
    by (cases "readUsers e (users_file s)")
  from readUsers_unique [OF assms r]
  have u: "unique_emails toLowerCase users" "unique_emails toLowerCase (directory f1)" by simp_all
  consider
      (same) "users_file (snd (post_register toLowerCase e name email token s)) = users_file s"
    | (read) "users_file (snd (post_register toLowerCase e name email token s)) = f1"
    | (new) u' where "find (same_email toLowerCase (user_email u')) users = None"
        "users_file (snd (post_register toLowerCase e name email token s)) = Some (users @ [u'])"
    using register_file [of toLowerCase e name email token s] r by auto
  then show ?thesis
  proof cases
    case same
    with assms show ?thesis by simp
  next
    case read
    with u show ?thesis by simp
  next
    case new
    with u(1) show ?thesis by (simp add: directory_def unique_snoc)
  qed
qed

lemma readUsers_file_unique:
  "unique_emails toLowerCase (directory f) \<Longrightarrow> unique_emails toLowerCase (directory (snd (readUsers e f)))"
  by (simp add: readUsers_def directory_def unique_emails_def split: option.splits)

lemma exists_file:
  "users_file (snd (post_exists toLowerCase e email s)) = users_file s
   \<or> users_file (snd (post_exists toLowerCase e email s)) = snd (readUsers e (users_file s))"
  by (simp add: post_exists_def case_prod_beta split: option.splits)

lemma me_file:
  "users_file (snd (get_me toLowerCase e header query s)) = users_file s
   \<or> users_file (snd (get_me toLowerCase e header query s)) = snd (readUsers e (users_file s))"
  by (simp add: get_me_def case_prod_beta split: option.splits)

lemma send_otp_file: "users_file (snd (post_send_otp cfg e email s)) = users_file s"
  by (simp add: post_send_otp_def Let_def split: option.splits)

lemma verify_otp_file: "users_file (snd (post_verify_otp cfg e email code s)) = users_file s"
  by (simp add: post_verify_otp_def Let_def split: option.splits)

lemma step_unique:
  assumes "unique_emails toLowerCase (directory (users_file s))"
  shows "unique_emails toLowerCase (directory (users_file (snd (step toLowerCase cfg ev s))))"
proof (cases ev)
  case (Sweep now)
  with assms show ?thesis by (simp add: janitor_def)
next
  case (Http e rq)
  have "unique_emails toLowerCase (directory (users_file (snd (handle toLowerCase cfg e rq s))))"
  proof (cases rq)
    case (SendOtp email)
    with assms show ?thesis by (simp add: send_otp_file)
  next
    case (VerifyOtp email code)
    with assms show ?thesis by (simp add: verify_otp_file)
  next
    case (Register name email token)
    with assms show ?thesis by (simp add: register_unique)
  next
    case (Exists email)
    with assms exists_file [of toLowerCase e email s]
      readUsers_file_unique [of toLowerCase "users_file s" e]
    show ?thesis by auto
  next
    case (Me header query)
    with assms me_file [of toLowerCase e header query s]
      readUsers_file_unique [of toLowerCase "users_file s" e]
    show ?thesis by auto
  qed
  with Http show ?thesis by (simp only: snd_step_Http)
qed

lemma run_unique:
  "unique_emails toLowerCase (directory (users_file s)) \<Longrightarrow>
   unique_emails toLowerCase (directory (users_file (snd (run toLowerCase cfg evs s))))"
proof (induction evs arbitrary: s)
  case Nil
  then show ?case by simp
next
  case (Cons ev evs)
  then have "unique_emails toLowerCase (directory (users_file (snd (step toLowerCase cfg ev s))))"
    by (simp add: step_unique)
  then have "unique_emails toLowerCase (directory (users_file (snd (run toLowerCase cfg evs (snd (step toLowerCase cfg ev s))))))"
    by (rule Cons.IH)
  then show ?case
    by (simp only: snd_run_Cons)
qed

text \<open>
  C7, as the code has it. Two emails are the same when \<^verbatim>\<open>toLowerCase\<close> gives the same
  string for both; the theorem holds for every function \<open>toLowerCase\<close>, so for the one
  of JavaScript with all the letters it folds. A \<^verbatim>\<open>/register\<close> request that passes the
  token check, whose email is the same as the email of a user in the users file, is
  answered 400 "User already exists" and changes nothing, provided reading the users
  file does not throw. Whatever happens, the emails in the users file stay pairwise
  different in lower case throughout every run of the server: a registration writes the
  list it read, which has no such email, plus the one new user.
\<close>

theorem register_duplicate_email:
  "(name \<noteq> [] \<and> email \<noteq> [] \<and> token \<noteq> []
      \<and> map_option tok_email (tokenStore s token) = Some email
      \<and> \<not> readJson_fails e
      \<and> u \<in> set (directory (users_file s)) \<and> same_email toLowerCase email u
    \<longrightarrow> post_register toLowerCase e (Some name) (Some email) (Some token) s
        = (Response 400 (Fail ''User already exists''), s))
   \<and> (unique_emails toLowerCase (directory (users_file s))
    \<longrightarrow> unique_emails toLowerCase (directory (users_file (snd (run toLowerCase cfg evs s)))))"
proof (intro conjI impI)
  assume a: "name \<noteq> [] \<and> email \<noteq> [] \<and> token \<noteq> []
      \<and> map_option tok_email (tokenStore s token) = Some email
      \<and> \<not> readJson_fails e
      \<and> u \<in> set (directory (users_file s)) \<and> same_email toLowerCase email u"
  then obtain us where f: "users_file s = Some us" and mem: "u \<in> set us"
    by (cases "users_file s") (simp_all add: directory_def)
  from a obtain m where m: "tokenStore s token = Some m" "tok_email m = email"
    by auto
  from mem a have "find (same_email toLowerCase email) us \<noteq> None"
    by (auto simp: find_None_iff)
  then obtain found where "find (same_email toLowerCase email) us = Some found"
    by auto
  moreover have "s\<lparr>users_file := Some us\<rparr> = s"
    using f by (intro server_eqI) simp_all
  ultimately show "post_register toLowerCase e (Some name) (Some email) (Some token) s
        = (Response 400 (Fail ''User already exists''), s)"
    using a f m by (simp add: post_register_def readUsers_def)
next
  assume "unique_emails toLowerCase (directory (users_file s))"
  then show "unique_emails toLowerCase (directory (users_file (snd (run toLowerCase cfg evs s))))"
    by (rule run_unique)
qed

theorem register_duplicate_email_witness:
  "map_option tok_email (tokenStore server4 token0) = Some ''A@X.COM''
   \<and> \<not> readJson_fails (env_at 402000)
   \<and> alice \<in> set (directory (users_file server4)) \<and> same_email ascii_toLowerCase ''A@X.COM'' alice
   \<and> post_register ascii_toLowerCase (env_at 402000) (Some ''Bob'') (Some ''A@X.COM'') (Some token0) server4
     = (Response 400 (Fail ''User already exists''), server4)
   \<and> unique_emails ascii_toLowerCase (directory (users_file server0))
   \<and> unique_emails ascii_toLowerCase (directory (users_file (snd (run ascii_toLowerCase default_config events4 server0))))"
  using register_duplicate_email [where toLowerCase = ascii_toLowerCase and name = "''Bob''" and email = "''A@X.COM''" and token = token0
      and s = server4 and e = "env_at 402000" and u = alice]
    register_duplicate_email [where toLowerCase = ascii_toLowerCase and s = server0 and cfg = default_config and evs = events4]
    server4_token alice_in_server4 same_email_alice unique_server0
  by (simp add: env_at_simps token0_nonempty)

text \<open>
  C7 as stated fails when reading the users file throws: \<^verbatim>\<open>readUsers\<close> then returns
  the empty list, the duplicate check finds nothing, and the request is answered 200;
  the file is replaced by the new user alone. In \<open>server4\<close> the file holds Alice with
  \<open>a@x.com\<close> and the token belongs to \<open>A@X.COM\<close>. And a request with a duplicate
  email whose token is for another email is turned away with the token error, not with
  the duplicate error.
\<close>

theorem register_duplicate_unread_counterexample:
  "users_file server4 = Some [alice] \<and> same_email ascii_toLowerCase ''A@X.COM'' alice
   \<and> tokenStore server4 token0 = Some \<lparr>tok_email = ''A@X.COM'', tok_expiresAt = 1301000\<rparr>
   \<and> now1 env_unreadable < 1301000
   \<and> readJson_fails env_unreadable
   \<and> post_register ascii_toLowerCase env_unreadable (Some ''Bob'') (Some ''A@X.COM'') (Some token0) server4
     = (Response 200 (Registered bob),
        server4\<lparr>users_file := Some [bob], tokenStore := (tokenStore server4)(token0 := None)\<rparr>)
   \<and> same_email ascii_toLowerCase ''a@x.com'' alice
   \<and> post_register ascii_toLowerCase (env_at 402000) (Some ''Bob'') (Some ''a@x.com'') (Some token0) server4
     = (Response 400 (Fail ''Invalid or expired token''), server4)"
proof -
  have "post_register ascii_toLowerCase env_unreadable (Some ''Bob'') (Some ''A@X.COM'') (Some token0) server4
     = (Response 200 (Registered bob),
        server4\<lparr>users_file := Some [bob], tokenStore := (tokenStore server4)(token0 := None)\<rparr>)"
    by (simp add: post_register_def server4_def env_unreadable_simps readUsers_def writeUsers_def
        id_env0 bob_def token0_nonempty Let_def)
  moreover have "post_register ascii_toLowerCase (env_at 402000) (Some ''Bob'') (Some ''a@x.com'') (Some token0) server4
     = (Response 400 (Fail ''Invalid or expired token''), server4)"
    by (simp add: post_register_def server4_token token0_nonempty)
  moreover have "same_email ascii_toLowerCase ''a@x.com'' alice"
    by (simp add: same_email_def alice_def)
  moreover have "users_file server4 = Some [alice]"
    by (simp add: server4_def)
  ultimately show ?thesis
    using same_email_alice server4_token by (simp add: env_unreadable_simps)
qed

section \<open>Failing to persist\<close>

lemma register_write_fails:
  assumes "name \<noteq> []" "email \<noteq> []" "token \<noteq> []"
    and "tokenStore s token = Some m" "tok_email m = email"
    and "find (same_email toLowerCase email) (fst (readUsers e (users_file s))) = None"
    and "writeJson_fails e"
  shows "post_register toLowerCase e (Some name) (Some email) (Some token) s
         = (Response 500 (Fail ''Failed to save user''),
            s\<lparr>users_file := snd (readUsers e (users_file s))\<rparr>)"
  using assms by (simp add: post_register_def writeUsers_def case_prod_beta)

lemma register_ok:
  assumes "name \<noteq> []" "email \<noteq> []" "token \<noteq> []"
    and "tokenStore s token = Some m" "tok_email m = email"
    and "find (same_email toLowerCase email) (fst (readUsers e (users_file s))) = None"
    and "\<not> writeJson_fails e"
  shows "post_register toLowerCase e (Some name) (Some email) (Some token) s
         = (Response 200 (Registered
               \<lparr>user_id = toString_hex (randomBytes 8 (random_byte e)),
                user_name = name, user_email = email, createdAt = now1 e\<rparr>),
            s\<lparr>users_file := Some (fst (readUsers e (users_file s)) @
                 [\<lparr>user_id = toString_hex (randomBytes 8 (random_byte e)),
                   user_name = name, user_email = email, createdAt = now1 e\<rparr>]),
              tokenStore := (tokenStore s)(token := None)\<rparr>)"
  using assms by (simp add: post_register_def writeUsers_def case_prod_beta Let_def)

lemma register_changes_tokens:
  assumes "post_register toLowerCase e name_field email_field token_field s = (r, s')"
    and "tokenStore s' \<noteq> tokenStore s"
  shows "\<not> writeJson_fails e
         \<and> (\<exists>u. r = Response 200 (Registered u)
                \<and> users_file s' = Some (fst (readUsers e (users_file s)) @ [u]))"
  using assms
  by (auto simp: post_register_def writeUsers_def case_prod_beta Let_def
      split: option.splits if_splits)

text \<open>
  C8. For a \<^verbatim>\<open>/register\<close> that passes the token check and the duplicate check, when
  \<^verbatim>\<open>writeUsers\<close> fails the answer is 500 "Failed to save user", the users held by the
  file are the same as before, and the token store is unchanged: the same request
  passes the token check again, and succeeds when its own write does and the duplicate
  check still passes. Conversely a \<^verbatim>\<open>/register\<close> changes the token store only
  when the write succeeded and the answer is 200.
\<close>

theorem register_persist_failure:
  "(name \<noteq> [] \<and> email \<noteq> [] \<and> token \<noteq> []
      \<and> tokenStore s token = Some m \<and> tok_email m = email
      \<and> find (same_email toLowerCase email) (fst (readUsers e (users_file s))) = None
      \<and> writeJson_fails e
      \<and> post_register toLowerCase e (Some name) (Some email) (Some token) s = (r, s')
    \<longrightarrow> r = Response 500 (Fail ''Failed to save user'')
      \<and> directory (users_file s') = directory (users_file s)
      \<and> tokenStore s' = tokenStore s
      \<and> fst (post_register toLowerCase e' (Some name) (Some email) (Some token) s')
          \<noteq> Response 400 (Fail ''Invalid or expired token'')
      \<and> (\<not> writeJson_fails e'
            \<and> find (same_email toLowerCase email) (fst (readUsers e' (users_file s'))) = None
          \<longrightarrow> status (fst (post_register toLowerCase e' (Some name) (Some email) (Some token) s')) = 200))
   \<and> (post_register toLowerCase e name_field email_field token_field s = (r, s')
      \<and> tokenStore s' \<noteq> tokenStore s
    \<longrightarrow> \<not> writeJson_fails e
      \<and> (\<exists>u. r = Response 200 (Registered u)
             \<and> users_file s' = Some (fst (readUsers e (users_file s)) @ [u])))"
proof (intro conjI impI)
  assume a: "name \<noteq> [] \<and> email \<noteq> [] \<and> token \<noteq> []
      \<and> tokenStore s token = Some m \<and> tok_email m = email
      \<and> find (same_email toLowerCase email) (fst (readUsers e (users_file s))) = None
      \<and> writeJson_fails e
      \<and> post_register toLowerCase e (Some name) (Some email) (Some token) s = (r, s')"
  then have res: "r = Response 500 (Fail ''Failed to save user'')"
      "s' = s\<lparr>users_file := snd (readUsers e (users_file s))\<rparr>"
    using register_write_fails [of name email token s m toLowerCase e] by simp_all
  show "r = Response 500 (Fail ''Failed to save user'')" by (rule res(1))
  show "directory (users_file s') = directory (users_file s)"
    by (simp add: res(2) readUsers_directory)
  show tok: "tokenStore s' = tokenStore s"
    by (simp add: res(2))
  from a tok have valid: "tokenStore s' token = Some m" by simp
  with a show "fst (post_register toLowerCase e' (Some name) (Some email) (Some token) s')
          \<noteq> Response 400 (Fail ''Invalid or expired token'')"
    by (simp add: post_register_def writeUsers_def case_prod_beta Let_def split: option.splits)
  show "status (fst (post_register toLowerCase e' (Some name) (Some email) (Some token) s')) = 200"
    if "\<not> writeJson_fails e'
            \<and> find (same_email toLowerCase email) (fst (readUsers e' (users_file s'))) = None"
    using a valid that register_ok [of name email token s' m toLowerCase e'] by simp
next
  assume "post_register toLowerCase e name_field email_field token_field s = (r, s')
      \<and> tokenStore s' \<noteq> tokenStore s"
  then show "\<not> writeJson_fails e"
      and "\<exists>u. r = Response 200 (Registered u)
             \<and> users_file s' = Some (fst (readUsers e (users_file s)) @ [u])"
    using register_changes_tokens [of toLowerCase e name_field email_field token_field s r s'] by simp_all
qed

theorem register_persist_failure_witness:
  "tokenStore server2 token0 = Some \<lparr>tok_email = ''a@x.com'', tok_expiresAt = 901000\<rparr>
   \<and> find (same_email ascii_toLowerCase ''a@x.com'') (fst (readUsers env_unwritable (users_file server2))) = None
   \<and> writeJson_fails env_unwritable
   \<and> post_register ascii_toLowerCase env_unwritable (Some ''Alice'') (Some ''a@x.com'') (Some token0) server2
     = (Response 500 (Fail ''Failed to save user''), server2\<lparr>users_file := Some []\<rparr>)
   \<and> directory (users_file (server2\<lparr>users_file := Some []\<rparr>)) = directory (users_file server2)
   \<and> tokenStore (server2\<lparr>users_file := Some []\<rparr>) = tokenStore server2
   \<and> fst (post_register ascii_toLowerCase (env_at 2000) (Some ''Alice'') (Some ''a@x.com'') (Some token0)
          (server2\<lparr>users_file := Some []\<rparr>))
       \<noteq> Response 400 (Fail ''Invalid or expired token'')
   \<and> status (fst (post_register ascii_toLowerCase (env_at 2000) (Some ''Alice'') (Some ''a@x.com'') (Some token0)
          (server2\<lparr>users_file := Some []\<rparr>))) = 200
   \<and> post_register ascii_toLowerCase (env_at 2000) (Some ''Alice'') (Some ''a@x.com'') (Some token0) server2
     = (Response 200 (Registered alice), server3)
   \<and> tokenStore server3 \<noteq> tokenStore server2
   \<and> \<not> writeJson_fails (env_at 2000)
   \<and> users_file server3 = Some [alice]"
proof -
  have f: "find (same_email ascii_toLowerCase ''a@x.com'') (fst (readUsers env_unwritable (users_file server2))) = None"
    by (simp add: readUsers_def server2_def)
  have r: "post_register ascii_toLowerCase env_unwritable (Some ''Alice'') (Some ''a@x.com'') (Some token0) server2
     = (Response 500 (Fail ''Failed to save user''), server2\<lparr>users_file := Some []\<rparr>)"
    by (simp add: post_register_def server2_def token0_nonempty readUsers_def writeUsers_def
        env_unwritable_simps Let_def)
  have f': "find (same_email ascii_toLowerCase ''a@x.com'')
      (fst (readUsers (env_at 2000) (users_file (server2\<lparr>users_file := Some []\<rparr>)))) = None"
    by (simp add: readUsers_def env_at_simps)
  have ne: "tokenStore server3 \<noteq> tokenStore server2"
    by (simp add: server3_def server2_def fun_eq_iff)
  have u: "users_file server3 = Some [alice]"
    by (simp add: server3_def)
  show ?thesis
    using register_persist_failure [where toLowerCase = ascii_toLowerCase and name = "''Alice''" and email = "''a@x.com''" and token = token0
        and s = server2 and e = env_unwritable and e' = "env_at 2000"
        and m = "\<lparr>tok_email = ''a@x.com'', tok_expiresAt = 901000\<rparr>"
        and r = "Response 500 (Fail ''Failed to save user'')"
        and s' = "server2\<lparr>users_file := Some []\<rparr>"]
      register_persist_failure [where toLowerCase = ascii_toLowerCase and name_field = "Some ''Alice''" and email_field = "Some ''a@x.com''"
        and token_field = "Some token0" and s = server2 and e = "env_at 2000"
        and r = "Response 200 (Registered alice)" and s' = server3]
      server2_token f r f' ne u register2
    by (simp add: env_unwritable_simps env_at_simps token0_nonempty)
qed

section \<open>An unreadable users file\<close>

text \<open>
  C10. \<^verbatim>\<open>readUsers\<close> returns the empty list whenever reading throws (and for a missing
  file). So while the users file exists and cannot be read, \<^verbatim>\<open>/exists\<close> answers
  \<open>exists = false\<close> for every email; \<^verbatim>\<open>/register\<close> answers as it would on an empty
  users file; and with a valid token and a write that succeeds, the file afterwards
  holds the new user alone.
\<close>

theorem readUsers_swallows_failure:
  "(readJson_fails e \<longrightarrow> fst (readUsers e (Some us)) = [])
   \<and> fst (readUsers e None) = []
   \<and> (readJson_fails e \<and> users_file s = Some us \<and> email \<noteq> []
      \<longrightarrow> post_exists toLowerCase e (Some email) s = (Response 200 (ExistsResult False), s))
   \<and> (readJson_fails e \<and> users_file s = Some us
      \<longrightarrow> fst (post_register toLowerCase e name_field email_field token_field s)
          = fst (post_register toLowerCase e name_field email_field token_field (s\<lparr>users_file := Some []\<rparr>)))
   \<and> (readJson_fails e \<and> users_file s = Some us
        \<and> name \<noteq> [] \<and> email \<noteq> [] \<and> token \<noteq> []
        \<and> tokenStore s token = Some m \<and> tok_email m = email
        \<and> \<not> writeJson_fails e
        \<and> u = \<lparr>user_id = toString_hex (randomBytes 8 (random_byte e)),
                user_name = name, user_email = email, createdAt = now1 e\<rparr>
      \<longrightarrow> post_register toLowerCase e (Some name) (Some email) (Some token) s
          = (Response 200 (Registered u),
             s\<lparr>users_file := Some [u], tokenStore := (tokenStore s)(token := None)\<rparr>))"
proof (intro conjI impI)
  show "fst (readUsers e (Some us)) = []" if "readJson_fails e"
    using that by (simp add: readUsers_def)
  show "fst (readUsers e None) = []"
    by (simp add: readUsers_def)
next
  assume a: "readJson_fails e \<and> users_file s = Some us \<and> email \<noteq> []"
  then have "s\<lparr>users_file := Some us\<rparr> = s"
    by (intro server_eqI) simp_all
  with a show "post_exists toLowerCase e (Some email) s = (Response 200 (ExistsResult False), s)"
    by (simp add: post_exists_def readUsers_def)
next
  assume "readJson_fails e \<and> users_file s = Some us"
  then show "fst (post_register toLowerCase e name_field email_field token_field s)
          = fst (post_register toLowerCase e name_field email_field token_field (s\<lparr>users_file := Some []\<rparr>))"
    by (simp add: post_register_def readUsers_def writeUsers_def Let_def
        split: option.splits)
next
  assume a: "readJson_fails e \<and> users_file s = Some us
        \<and> name \<noteq> [] \<and> email \<noteq> [] \<and> token \<noteq> []
        \<and> tokenStore s token = Some m \<and> tok_email m = email
        \<and> \<not> writeJson_fails e
        \<and> u = \<lparr>user_id = toString_hex (randomBytes 8 (random_byte e)),
                user_name = name, user_email = email, createdAt = now1 e\<rparr>"
  then have "fst (readUsers e (users_file s)) = []"
    by (simp add: readUsers_def)
  with a show "post_register toLowerCase e (Some name) (Some email) (Some token) s
          = (Response 200 (Registered u),
             s\<lparr>users_file := Some [u], tokenStore := (tokenStore s)(token := None)\<rparr>)"
    using register_ok [of name email token s m toLowerCase e] by simp
qed

theorem readUsers_swallows_failure_witness:
  "readJson_fails env_unreadable
   \<and> fst (readUsers env_unreadable (Some [alice])) = []
   \<and> fst (readUsers env_unreadable None) = []
   \<and> users_file server4 = Some [alice]
   \<and> post_exists ascii_toLowerCase env_unreadable (Some ''A@X.COM'') server4
     = (Response 200 (ExistsResult False), server4)
   \<and> fst (post_register ascii_toLowerCase env_unreadable (Some ''Bob'') (Some ''A@X.COM'') (Some token0) server4)
     = fst (post_register ascii_toLowerCase env_unreadable (Some ''Bob'') (Some ''A@X.COM'') (Some token0)
         (server4\<lparr>users_file := Some []\<rparr>))
   \<and> tokenStore server4 token0 = Some \<lparr>tok_email = ''A@X.COM'', tok_expiresAt = 1301000\<rparr>
   \<and> \<not> writeJson_fails env_unreadable
   \<and> post_register ascii_toLowerCase env_unreadable (Some ''Bob'') (Some ''A@X.COM'') (Some token0) server4
     = (Response 200 (Registered bob),
        server4\<lparr>users_file := Some [bob], tokenStore := (tokenStore server4)(token0 := None)\<rparr>)"
proof -
  have f: "users_file server4 = Some [alice]"
    by (simp add: server4_def)
  have b: "bob = \<lparr>user_id = toString_hex (randomBytes 8 (random_byte env_unreadable)),
                user_name = ''Bob'', user_email = ''A@X.COM'', createdAt = now1 env_unreadable\<rparr>"
    by (simp add: bob_def env_unreadable_simps id_env0)
  show ?thesis
    using readUsers_swallows_failure [where toLowerCase = ascii_toLowerCase and e = env_unreadable and us = "[alice]" and s = server4
        and name_field = "Some ''Bob''"
        and email_field = "Some ''A@X.COM''" and token_field = "Some token0"
        and email = "''A@X.COM''" and name = "''Bob''" and token = token0 and u = bob
        and m = "\<lparr>tok_email = ''A@X.COM'', tok_expiresAt = 1301000\<rparr>"]
      f b server4_token
    by (auto simp: env_unreadable_simps token0_nonempty)
qed

end
